theory Spec2Isabelle
  imports Main
begin

section \<open>JavaScript values used by the router\<close>

text \<open>
  The router (src/src/index.js, src/src/utils.js) works on strings, on plain objects
  whose values are primitives, and on references to route objects. A JavaScript string
  is modelled as a \<open>string\<close> (one \<open>char\<close> per code unit, ASCII range).
  A value that may also be \<open>undefined\<close> or \<open>null\<close> is a \<open>nullable\<close>;
  the primitive values stored in \<open>params\<close> and handed to the hook continuations are
  \<open>jsval\<close>s.
\<close>

datatype 'a nullable = Undefined | Null | Val 'a

type_synonym jsstr = "string nullable"

datatype jsval = JUndefined | JNull | JBool bool | JStr string

datatype js_error = TypeError | ReferenceError | URIError | DOMException

text \<open>JavaScript truthiness of a primitive (\<open>if (v)\<close>, \<open>v || d\<close>).\<close>

fun truthy :: "jsval \<Rightarrow> bool" where
  "truthy JUndefined = False"
| "truthy JNull = False"
| "truthy (JBool b) = b"
| "truthy (JStr s) = (s \<noteq> [])"

text \<open>\<open>v || null\<close> for a string-or-absent value: the empty string is falsy too.\<close>

fun or_null :: "jsstr \<Rightarrow> string option" where
  "or_null Undefined = None"
| "or_null Null = None"
| "or_null (Val s) = (if s = [] then None else Some s)"

section \<open>String primitives\<close>

text \<open>
  \<open>String.prototype.indexOf(search, position)\<close>: the position is clamped to
  \<open>0..length\<close>, the result is the first index at or after it where \<open>search\<close>
  occurs, or \<open>-1\<close>.
\<close>

fun index_scan :: "string \<Rightarrow> string \<Rightarrow> nat \<Rightarrow> int" where
  "index_scan [] p k = (if p = [] then int k else - 1)"
| "index_scan (c # s) p k =
     (if take (length p) (c # s) = p then int k else index_scan s p (Suc k))"

definition js_indexOf :: "string \<Rightarrow> string \<Rightarrow> int \<Rightarrow> int" where
  "js_indexOf s p pos =
     (let start = nat (max 0 (min pos (int (length s))))
      in index_scan (drop start s) p start)"

text \<open>
  \<open>slice(begin, end)\<close> and \<open>substr(start)\<close>: a negative index counts from the
  end, and every index is clamped to the string.
\<close>

definition rel_index :: "int \<Rightarrow> nat \<Rightarrow> nat" where
  "rel_index i len = (if i < 0 then nat (max 0 (int len + i)) else min (nat i) len)"

definition js_slice :: "string \<Rightarrow> int \<Rightarrow> int \<Rightarrow> string" where
  "js_slice s b e =
     (let from = rel_index b (length s); to = rel_index e (length s)
      in take (to - from) (drop from s))"

definition js_slice_from :: "string \<Rightarrow> int \<Rightarrow> string" where
  "js_slice_from s b = js_slice s b (int (length s))"

definition js_substr :: "string \<Rightarrow> int \<Rightarrow> string" where
  "js_substr s start = drop (rel_index start (length s)) s"

section \<open>src/utils.js\<close>

definition startsWith :: "string \<Rightarrow> string \<Rightarrow> bool" where
  "startsWith str pre = (js_indexOf str pre 0 = 0)"

definition endsWith :: "string \<Rightarrow> string \<Rightarrow> bool" where
  "endsWith str suffix =
     (js_indexOf str suffix (int (length str) - int (length suffix)) \<ge> 0)"

definition addLeadingSlash :: "string \<Rightarrow> string" where
  "addLeadingSlash str =
     (case str of
        [] \<Rightarrow> CHR ''/'' # str
      | c # _ \<Rightarrow> if c = CHR ''/'' then str else CHR ''/'' # str)"

definition stripTrailingSlash :: "string \<Rightarrow> string" where
  "stripTrailingSlash str = (if endsWith str ''/'' then js_slice str 0 (- 1) else str)"

text \<open>
  \<open>stripSlashes\<close> replaces every match of a regular expression for one backslash
  (character code 0x5C) by the empty string: despite its name it removes backslashes,
  not slashes.
\<close>

definition stripSlashes :: "string \<Rightarrow> string" where
  "stripSlashes str = filter (\<lambda>c. c \<noteq> CHR 0x5C) str"

section \<open>Plain objects\<close>

text \<open>
  A plain object is the list of its own enumerable properties in enumeration order:
  array-index keys first, in ascending numeric order, then the other string keys in
  the order they were created. \<open>JSON.stringify\<close> follows that order, so it is part
  of what the route-equality test observes.
\<close>

type_synonym jsobject = "(string \<times> jsval) list"

definition is_digit :: "char \<Rightarrow> bool" where
  "is_digit c = (48 \<le> (of_char c :: nat) \<and> (of_char c :: nat) \<le> 57)"

definition dec_value :: "string \<Rightarrow> nat" where
  "dec_value k = foldl (\<lambda>a c. 10 * a + ((of_char c :: nat) - 48)) 0 k"

text \<open>The canonical decimal numerals below \<open>2^32 - 1\<close> are the array indices.\<close>

definition array_index :: "string \<Rightarrow> nat option" where
  "array_index k =
     (if k = [] \<or> \<not> list_all is_digit k \<or> (length k > 1 \<and> hd k = CHR ''0'')
      then None
      else if dec_value k < 4294967295 then Some (dec_value k) else None)"

fun insert_index :: "nat \<Rightarrow> string \<Rightarrow> jsval \<Rightarrow> jsobject \<Rightarrow> jsobject" where
  "insert_index n k v [] = [(k, v)]"
| "insert_index n k v ((k', v') # rest) =
     (case array_index k' of
        Some m \<Rightarrow>
          if m < n then (k', v') # insert_index n k v rest
          else (k, v) # (k', v') # rest
      | None \<Rightarrow> (k, v) # (k', v') # rest)"

definition has_key :: "jsobject \<Rightarrow> string \<Rightarrow> bool" where
  "has_key obj k = (map_of obj k \<noteq> None)"

definition js_get :: "jsobject \<Rightarrow> string \<Rightarrow> jsval" where
  "js_get obj k = (case map_of obj k of Some v \<Rightarrow> v | None \<Rightarrow> JUndefined)"

text \<open>
  Defining the own property \<open>k\<close> with the value \<open>v\<close>: an existing property keeps
  its place, a new one is placed by the ordering above.
\<close>

definition define_own :: "jsobject \<Rightarrow> string \<Rightarrow> jsval \<Rightarrow> jsobject" where
  "define_own obj k v =
     (if has_key obj k
        then map (\<lambda>(k', v'). if k' = k then (k', v) else (k', v')) obj
      else (case array_index k of
              Some n \<Rightarrow> insert_index n k v obj
            | None \<Rightarrow> obj @ [(k, v)]))"

text \<open>
  The assignment \<open>obj[k] = v\<close> of a primitive \<open>v\<close> defines the own property,
  with one exception: as long as the object has no own property \<open>__proto__\<close>, an
  assignment to that name goes to the setter inherited from \<open>Object.prototype\<close>,
  which ignores a primitive, and no own property is created.
\<close>

definition js_set :: "jsobject \<Rightarrow> string \<Rightarrow> jsval \<Rightarrow> jsobject" where
  "js_set obj k v =
     (if k = ''__proto__'' \<and> \<not> has_key obj k then obj else define_own obj k v)"

subsection \<open>\<open>JSON.stringify\<close> on an object of primitives\<close>

definition hex_digit :: "nat \<Rightarrow> char" where
  "hex_digit n = (if n < 10 then char_of (48 + n) else char_of (87 + n))"

definition json_escape_char :: "char \<Rightarrow> string" where
  "json_escape_char c =
     (if c = CHR 0x22 then [CHR 0x5C, CHR 0x22]
      else if c = CHR 0x5C then [CHR 0x5C, CHR 0x5C]
      else if c = CHR 0x08 then [CHR 0x5C, CHR ''b'']
      else if c = CHR 0x09 then [CHR 0x5C, CHR ''t'']
      else if c = CHR 0x0A then [CHR 0x5C, CHR ''n'']
      else if c = CHR 0x0C then [CHR 0x5C, CHR ''f'']
      else if c = CHR 0x0D then [CHR 0x5C, CHR ''r'']
      else if (of_char c :: nat) < 32
        then [CHR 0x5C, CHR ''u'', CHR ''0'', CHR ''0'',
              hex_digit ((of_char c :: nat) div 16), hex_digit ((of_char c :: nat) mod 16)]
      else [c])"

definition json_quote :: "string \<Rightarrow> string" where
  "json_quote s = CHR 0x22 # concat (map json_escape_char s) @ [CHR 0x22]"

fun json_value :: "jsval \<Rightarrow> string" where
  "json_value JUndefined = []"
| "json_value JNull = ''null''"
| "json_value (JBool b) = (if b then ''true'' else ''false'')"
| "json_value (JStr s) = json_quote s"

fun join_comma :: "string list \<Rightarrow> string" where
  "join_comma [] = []"
| "join_comma [x] = x"
| "join_comma (x # y # ys) = x @ '','' @ join_comma (y # ys)"

text \<open>A property whose value is \<open>undefined\<close> is left out of the output.\<close>

definition JSON_stringify :: "jsobject \<Rightarrow> string" where
  "JSON_stringify obj =
     ''{'' @ join_comma (map (\<lambda>(k, v). json_quote k @ '':'' @ json_value v)
                          (filter (\<lambda>(k, v). v \<noteq> JUndefined) obj)) @ ''}''"

subsection \<open>\<open>lodash.merge\<close> on a flat source\<close>

text \<open>
  \<open>merge(object, source)\<close> changes \<open>object\<close> in place and returns it. For a source
  whose values are primitives it goes through the source properties and calls
  \<open>assignMergeValue\<close>, which assigns unless the value is already there
  (\<open>!eq(object[key], value)\<close>) or the value is \<open>undefined\<close> and \<open>key in object\<close>
  holds. Both tests see the properties inherited from \<open>Object.prototype\<close>: such a
  property is never equal to a primitive, and \<open>in\<close> holds for its name.
  \<open>baseAssignValue\<close> assigns, except that it defines \<open>__proto__\<close> as an own
  property.
\<close>

definition object_prototype_names :: "string list" where
  "object_prototype_names =
     [''constructor'', ''__defineGetter__'', ''__defineSetter__'', ''hasOwnProperty'',
      ''__lookupGetter__'', ''__lookupSetter__'', ''isPrototypeOf'',
      ''propertyIsEnumerable'', ''toString'', ''valueOf'', ''__proto__'',
      ''toLocaleString'']"

definition key_in :: "string \<Rightarrow> jsobject \<Rightarrow> bool" where
  "key_in k obj = (has_key obj k \<or> k \<in> set object_prototype_names)"

definition baseAssignValue :: "jsobject \<Rightarrow> string \<Rightarrow> jsval \<Rightarrow> jsobject" where
  "baseAssignValue obj k v =
     (if k = ''__proto__'' then define_own obj k v else js_set obj k v)"

definition assignMergeValue :: "jsobject \<Rightarrow> string \<Rightarrow> jsval \<Rightarrow> jsobject" where
  "assignMergeValue obj k v =
     (if (v \<noteq> JUndefined \<and> map_of obj k \<noteq> Some v) \<or> (v = JUndefined \<and> \<not> key_in k obj)
      then baseAssignValue obj k v else obj)"

definition merge_object :: "jsobject \<Rightarrow> jsobject \<Rightarrow> jsobject" where
  "merge_object obj src = foldl (\<lambda>acc (k, v). assignMergeValue acc k v) obj src"

section \<open>Data model of the router\<close>

text \<open>
  A route definition as the application supplies it. \<open>def_callback\<close> is
  \<open>Some f\<close> when the \<open>callback\<close> property is a function (named \<open>f\<close> here),
  \<open>def_component\<close> is the component key, \<open>None\<close> when the property is absent.
\<close>

record route_def =
  def_name :: string
  def_path :: string
  def_callback :: "nat option"
  def_component :: "string option"

text \<open>
  An entry of \<open>routeData\<close>. The matcher comes from the library \<open>path-to-regexp\<close>,
  which is not part of this repository, so it is a parameter: \<open>regexp\<close> is
  \<open>regexp.exec\<close> followed by \<open>result.splice(1)\<close>, that is \<open>None\<close> for no match and
  otherwise the capture groups, an unmatched optional group being \<open>undefined\<close>
  (\<open>None\<close>); \<open>keys\<close> holds the \<open>name\<close> of each key the library reported.
  The expressions the library builds have no global or sticky flag, so \<open>exec\<close>
  depends on the path alone.
\<close>

record compiled_route =
  route :: route_def
  regexp :: "string \<Rightarrow> string option list option"
  keys :: "string list"

text \<open>
  The route object (\<open>routeObj\<close> in \<open>_match\<close>); \<open>inst\<close> is its \<open>instance\<close>
  property, absent (\<open>None\<close>) until a component is instantiated.
\<close>

record route_state =
  name :: string
  path :: string
  params :: jsobject
  query :: "string option"
  hash :: "string option"
  inst :: "nat option"

text \<open>
  Route objects are shared by reference between \<open>currentRoute\<close>, \<open>lastRoute\<close>,
  the hooks and the history entry, so they live in a store: a reference is an index
  into \<open>heap\<close>, and a new object is appended to it.
\<close>

type_synonym ref = nat

text \<open>
  A location of the history. \<open>loc_query\<close> is its \<open>query\<close> property, which
  \<open>_match\<close> reads and which the locations of the history library do not have;
  \<open>loc_state\<close> is the route object that was pushed with it.
\<close>

record location =
  pathname :: string
  search :: string
  loc_hash :: string
  loc_query :: jsstr
  loc_state :: "ref option"

text \<open>
  A history of the library \<open>history\<close>: its current location and, as parameters,
  what it calls but does not contain: the built-in \<open>decodeURI\<close> (\<open>None\<close> when
  it throws a URIError), the function \<open>resolvePathname\<close> for a relative path, and
  the error with which the backend (\<open>pushState\<close>, \<open>replaceState\<close>) refuses a
  location, if it does.
\<close>

record history_adapter =
  location :: location
  decodeURI :: "string \<Rightarrow> string option"
  resolvePathname :: "string \<Rightarrow> string \<Rightarrow> string"
  backend_error :: "location \<Rightarrow> js_error option"

text \<open>The object handed to \<open>history.push\<close> and \<open>history.replace\<close>.\<close>

record location_obj =
  lo_pathname :: string
  lo_search :: "string option"
  lo_hash :: "string option"
  lo_state :: ref

text \<open>
  A value stored in \<open>components\<close>: a function (a constructor, named by a number;
  the instances it creates carry that number) or something that is not a function.
\<close>

datatype component = CFunction nat | COther

fun is_function :: "component option \<Rightarrow> bool" where
  "is_function (Some (CFunction c)) = True"
| "is_function _ = False"

text \<open>
  A hook is application code. It sees the two route objects it is given (\<open>None\<close>
  for \<open>null\<close>) and either never invokes its continuation (\<open>None\<close>) or invokes
  it, first, with some argument (\<open>Some v\<close>, \<open>v = JUndefined\<close> when it passes
  none); a promise settles on the first invocation only. The \<open>beforeEach\<close> and \<open>afterEach\<close> properties hold the method of
  the class, a function the application assigned, or a value that is not a function.
\<close>

type_synonym hook = "route_state option \<Rightarrow> route_state option \<Rightarrow> jsval option"

datatype hook_slot = DefaultHook | UserHook hook | NotAFunction

text \<open>
  Everything the router does to its collaborators, in order. A call of a hook, and
  the dispatch of the signal that goes with it, hands over references; the event
  keeps the references of \<open>from\<close> and \<open>to\<close> and, with them, the route object that
  \<open>to\<close> referred to at that moment. \<open>HistoryPush\<close> and \<open>HistoryReplace\<close> are the
  calls of \<open>history.push\<close> and \<open>history.replace\<close>, whether or not the library
  then accepts the location.
\<close>

datatype event =
    ConsoleError string
  | ConsoleLog string
  | BeforeEachCall "ref option" ref route_state
  | BeforeEachDispatch "ref option" ref route_state
  | AfterEachCall "ref option" "ref option" "route_state option"
  | AfterEachDispatch "ref option" "ref option" "route_state option"
  | Destroy nat
  | HistoryPush location_obj
  | HistoryReplace location_obj
  | NewComponent nat
  | CallbackCall nat "ref option"
  | Mount nat
  | PreRenderMount nat
  | ParseAnchors
  | RouteChangedDispatch "ref option" "ref option"
  | AddHashChangeListener
  | HistoryListen
  | SetScrollRestoration string
  | UnhandledRejection js_error

text \<open>
  The fields of the router instance. \<open>mountEl\<close> tells whether \<open>_mountEl\<close> is an
  element rather than \<open>null\<close>, \<open>unlisten\<close> whether \<open>_handleListen\<close> has been
  registered with the history; \<open>beforeEachChanged\<close> and \<open>afterEachChanged\<close> are
  the listeners of the two signals, in the order they are called; \<open>heap\<close> is the
  store of route objects and \<open>events\<close> the record of what has been done so far.
\<close>

record router =
  routes :: "route_def list"
  components :: "string \<Rightarrow> component option"
  basePath :: string
  mode :: string
  localeName :: string
  preRendered :: bool
  restoreScroll :: bool
  debugMode :: bool
  history :: "history_adapter option"
  routeData :: "compiled_route list"
  action :: string
  lastRoute :: "ref option"
  currentRoute :: "ref option"
  pageInstance :: "nat option"
  isFirstRoute :: bool
  beforeEach :: hook_slot
  afterEach :: hook_slot
  beforeEachChanged :: "hook list"
  afterEachChanged :: "hook list"
  mountEl :: bool
  unlisten :: bool
  heap :: "route_state list"
  events :: "event list"

text \<open>A call either returns a value or raises; both leave a router state behind.\<close>

datatype 'a outcome = Raise js_error router | Return 'a router

definition BROWSER_MODE :: string where "BROWSER_MODE = ''browser''"
definition HASH_MODE :: string where "HASH_MODE = ''hash''"
definition MEMORY_MODE :: string where "MEMORY_MODE = ''memory''"
definition PUSH_ACTION :: string where "PUSH_ACTION = ''push''"
definition REPLACE_ACTION :: string where "REPLACE_ACTION = ''replace''"
definition POP_ACTION :: string where "POP_ACTION = ''pop''"

text \<open>A text between single quotes, as the log messages show a mode or a path.\<close>

definition quoted :: "string \<Rightarrow> string" where
  "quoted t = CHR 0x27 # t @ [CHR 0x27]"

definition emit :: "event \<Rightarrow> router \<Rightarrow> router" where
  "emit e r = r\<lparr>events := events r @ [e]\<rparr>"

section \<open>Path cleaning, lookup by name, matching (src/index.js)\<close>

text \<open>
  The methods of the class \<open>Router\<close> keep their names behind the prefix
  \<open>Router_\<close>, without the leading underscore of the private ones. A method that
  can log or change the router takes the router state and returns the new one.
\<close>

text \<open>\<open>_cleanPath\<close>: anything but a string is reported and yields \<open>undefined\<close>.\<close>

definition Router_cleanPath :: "router \<Rightarrow> jsstr \<Rightarrow> jsstr \<times> router" where
  "Router_cleanPath r p =
     (case p of
        Val pth \<Rightarrow>
          (let c1 = (if startsWith pth (basePath r)
                     then js_slice_from pth (int (length (basePath r))) else pth);
               c2 = (if js_indexOf c1 (addLeadingSlash (localeName r)) 0 = 0
                        \<and> length (localeName r) \<noteq> 0
                     then js_substr c1 (int (length (localeName r)) + 1) else c1);
               c3 = (if c2 \<noteq> ''/'' then stripTrailingSlash c2 else c2)
           in (Val c3, r))
      | _ \<Rightarrow>
          (Undefined,
           emit (ConsoleError ''Router._cleanPath : Path argument is required and must be a string'') r))"

text \<open>\<open>_matchRouteByName\<close>: \<open>find(this.routes, { name })\<close> is the first route of that name.\<close>

definition Router_matchRouteByName :: "router \<Rightarrow> jsstr \<Rightarrow> route_def nullable \<times> router" where
  "Router_matchRouteByName r n =
     (case n of
        Val nm \<Rightarrow>
          (case find (\<lambda>d. def_name d = nm) (routes r) of
             Some d \<Rightarrow> (Val d, r)
           | None \<Rightarrow> (Null, r))
      | _ \<Rightarrow>
          (Undefined,
           emit (ConsoleError ''Router._matchRouteByName : Name argument is required and must be a string'') r))"

text \<open>
  The inner loop of \<open>_match\<close>: \<open>params[keys[j].name] = rawParams[j]\<close> for every
  capture. With more captures than keys, \<open>keys[j]\<close> is \<open>undefined\<close> and reading its
  \<open>name\<close> raises a TypeError (\<open>None\<close>).
\<close>

fun capture_value :: "string option \<Rightarrow> jsval" where
  "capture_value None = JUndefined"
| "capture_value (Some s) = JStr s"

fun bind_params :: "jsobject \<Rightarrow> string list \<Rightarrow> string option list \<Rightarrow> jsobject option" where
  "bind_params ps ks [] = Some ps"
| "bind_params ps [] (c # cs) = None"
| "bind_params ps (k # ks) (c # cs) = bind_params (js_set ps k (capture_value c)) ks cs"

text \<open>What \<open>_match\<close> returns: the new route object, the component and the callback.\<close>

record matched =
  m_route :: ref
  m_component :: "component option"
  m_callback :: "nat option"

text \<open>
  The body of the loop once \<open>regexp.exec\<close> has matched. \<open>this.history.location\<close>
  raises a TypeError when the history is \<open>null\<close>. A route without a component key
  looks up \<open>components[undefined]\<close>, the property named \<open>undefined\<close>.
\<close>

definition route_found ::
  "router \<Rightarrow> compiled_route \<Rightarrow> string option list \<Rightarrow> string \<Rightarrow> matched nullable outcome" where
  "route_found r cr rawParams pth =
     (case bind_params [] (keys cr) rawParams of
        None \<Rightarrow> Raise TypeError r
      | Some ps \<Rightarrow>
          (case history r of
             None \<Rightarrow> Raise TypeError r
           | Some h \<Rightarrow>
               (let routeObj = \<lparr>name = def_name (route cr), path = pth, params = ps,
                                query = or_null (loc_query (location h)),
                                hash = or_null (Val (loc_hash (location h))),
                                inst = None\<rparr>;
                    componentKey = (case def_component (route cr) of
                                      None \<Rightarrow> ''undefined'' | Some k \<Rightarrow> k)
                in Return (Val \<lparr>m_route = length (heap r),
                                m_component = components r componentKey,
                                m_callback = def_callback (route cr)\<rparr>)
                          (r\<lparr>heap := heap r @ [routeObj]\<rparr>))))"

fun match_loop :: "router \<Rightarrow> compiled_route list \<Rightarrow> string \<Rightarrow> matched nullable outcome" where
  "match_loop r [] pth = Return Null r"
| "match_loop r (cr # rest) pth =
     (case regexp cr pth of
        None \<Rightarrow> match_loop r rest pth
      | Some rawParams \<Rightarrow> route_found r cr rawParams pth)"

definition Router_match :: "router \<Rightarrow> jsstr \<Rightarrow> matched nullable outcome" where
  "Router_match r p =
     (case p of
        Val pth \<Rightarrow> match_loop r (routeData r) pth
      | _ \<Rightarrow>
          Return Undefined
            (emit (ConsoleError ''Router._match : Path argument is required and must be a string'') r))"

text \<open>
  \<open>_isRouteEqual\<close>: both references non-null, the names equal and the
  \<open>JSON.stringify\<close> texts of the two \<open>params\<close> objects equal.
\<close>

definition Router_isRouteEqual :: "router \<Rightarrow> ref option \<Rightarrow> ref option \<Rightarrow> bool \<times> router" where
  "Router_isRouteEqual r cur new =
     (case cur of
        None \<Rightarrow> (False, r)
      | Some c \<Rightarrow>
          (case new of
             None \<Rightarrow> (False, r)
           | Some n \<Rightarrow>
               if name (heap r ! c) = name (heap r ! n)
                  \<and> JSON_stringify (params (heap r ! c)) = JSON_stringify (params (heap r ! n))
               then (True,
                     if debugMode r
                     then emit (ConsoleLog ''Router.navigate Cancel because same route'') r
                     else r)
               else (False, r)))"

section \<open>History and notifications\<close>

text \<open>
  \<open>_dispatchRouteChange\<close>: notify the subscribers of \<open>routeChanged\<close>, log in
  debug mode, and make \<open>pop\<close> the pending action.
\<close>

definition Router_dispatchRouteChange :: "router \<Rightarrow> router" where
  "Router_dispatchRouteChange r =
     (let r1 = emit (RouteChangedDispatch (lastRoute r) (currentRoute r)) r;
          r2 = (if debugMode r1 \<and> action r1 \<noteq> POP_ACTION
                then emit (ConsoleLog ''Current route'')
                       (emit (ConsoleLog ''Router.routeChange Last route'') r1)
                else r1)
      in r2\<lparr>action := POP_ACTION\<rparr>)"

text \<open>
  The library \<open>history\<close> (4.x) is not part of this repository. What the router
  relies on is modelled here. \<open>createLocation\<close> completes the object it is given:
  an absent search or hash becomes the empty string, a present one gets its leading
  \<open>?\<close> or \<open>#\<close>; the pathname is decoded, which throws a URIError when it
  cannot be; an empty pathname becomes the current one and a relative one is resolved
  against it. The properties of the object are copied, \<open>state\<close> among them.
\<close>

definition with_prefix :: "char \<Rightarrow> string option \<Rightarrow> string" where
  "with_prefix c x =
     (case x of
        None \<Rightarrow> []
      | Some t \<Rightarrow> (case t of [] \<Rightarrow> [] | d # u \<Rightarrow> if d = c then t else c # t))"

definition createLocation :: "history_adapter \<Rightarrow> location_obj \<Rightarrow> js_error + location" where
  "createLocation h lo =
     (case decodeURI h (lo_pathname lo) of
        None \<Rightarrow> Inl URIError
      | Some pn \<Rightarrow>
          Inr \<lparr>pathname = (case pn of
                             [] \<Rightarrow> pathname (location h)
                           | c # u \<Rightarrow>
                               if c = CHR ''/'' then pn
                               else resolvePathname h pn (pathname (location h))),
               search = with_prefix (CHR ''?'') (lo_search lo),
               loc_hash = with_prefix (CHR ''#'') (lo_hash lo),
               loc_query = Undefined,
               loc_state = Some (lo_state lo)\<rparr>)"

text \<open>
  \<open>push\<close> and \<open>replace\<close> create the location, hand it to the backend, make it
  the current one and then call the function registered with \<open>listen\<close>, if any.
  That function is \<open>_handleListen\<close>, which for the actions \<open>PUSH\<close> and
  \<open>REPLACE\<close> does nothing but \<open>_dispatchRouteChange\<close>. When the location cannot
  be created or the backend refuses it, the call throws: the history keeps its
  location and nobody is notified. On a \<open>null\<close> history the call itself raises a
  TypeError, before anything is called.
\<close>

definition history_accepts :: "history_adapter \<Rightarrow> location_obj \<Rightarrow> js_error + location" where
  "history_accepts h lo =
     (case createLocation h lo of
        Inl e \<Rightarrow> Inl e
      | Inr loc \<Rightarrow> (case backend_error h loc of Some e \<Rightarrow> Inl e | None \<Rightarrow> Inr loc))"

definition history_transition :: "router \<Rightarrow> event \<Rightarrow> location_obj \<Rightarrow> unit outcome" where
  "history_transition r ev lo =
     (case history r of
        None \<Rightarrow> Raise TypeError r
      | Some h \<Rightarrow>
          (case history_accepts h lo of
             Inl e \<Rightarrow> Raise e (emit ev r)
           | Inr loc \<Rightarrow>
               (let r1 = emit ev (r\<lparr>history := Some (h\<lparr>location := loc\<rparr>)\<rparr>)
                in Return () (if unlisten r1 then Router_dispatchRouteChange r1 else r1))))"

definition history_push :: "router \<Rightarrow> location_obj \<Rightarrow> unit outcome" where
  "history_push r lo = history_transition r (HistoryPush lo) lo"

definition history_replace :: "router \<Rightarrow> location_obj \<Rightarrow> unit outcome" where
  "history_replace r lo = history_transition r (HistoryReplace lo) lo"

section \<open>\<open>navigate\<close>\<close>

text \<open>
  The argument of \<open>navigate\<close>: a path string or an options object. \<open>opt_params\<close>
  is \<open>Some obj\<close> when \<open>params\<close> is an object (flat, with primitive values) and
  \<open>None\<close> when it is absent or not an object.
\<close>

record nav_options =
  opt_path :: jsstr
  opt_query :: jsstr
  opt_hash :: jsstr
  opt_name :: jsstr
  opt_silent :: bool
  opt_params :: "jsobject option"

datatype nav_arg = PathString string | Options nav_options

fun arg_path :: "nav_arg \<Rightarrow> jsstr" where
  "arg_path (PathString s) = Val s"
| "arg_path (Options opts) = opt_path opts"

fun arg_query :: "nav_arg \<Rightarrow> string option" where
  "arg_query (PathString s) = None"
| "arg_query (Options opts) = or_null (opt_query opts)"

fun arg_hash :: "nav_arg \<Rightarrow> string option" where
  "arg_hash (PathString s) = None"
| "arg_hash (Options opts) = or_null (opt_hash opts)"

fun arg_name :: "nav_arg \<Rightarrow> string option" where
  "arg_name (PathString s) = None"
| "arg_name (Options opts) = or_null (opt_name opts)"

fun arg_silent :: "nav_arg \<Rightarrow> bool" where
  "arg_silent (PathString s) = False"
| "arg_silent (Options opts) = opt_silent opts"

fun arg_params :: "nav_arg \<Rightarrow> jsobject option" where
  "arg_params (PathString s) = None"
| "arg_params (Options opts) = opt_params opts"

text \<open>The ways \<open>navigate\<close> returns before it creates the first promise.\<close>

datatype nav_exit = NoPath | NoMatch | SameRoute | NoHandler

text \<open>
  What the callback registered with \<open>beforePromise.then\<close> closes over, and the value
  the promise was resolved with (\<open>None\<close>: it never is).
\<close>

record pending =
  p_newRoute :: ref
  p_path :: string
  p_query :: "string option"
  p_hash :: "string option"
  p_silent :: bool
  p_callback :: "nat option"
  p_component :: "component option"
  p_localePrefix :: string
  p_resolved :: "jsval option"

text \<open>\<open>path = this._matchRouteByName(name).path\<close>: the property of \<open>null\<close> raises.\<close>

definition path_by_name :: "router \<Rightarrow> string \<Rightarrow> jsstr outcome" where
  "path_by_name r nm =
     (case Router_matchRouteByName r (Val nm) of
        (Val d, r1) \<Rightarrow> Return (Val (def_path d)) r1
      | (Undefined, r1) \<Rightarrow> Raise TypeError r1
      | (Null, r1) \<Rightarrow> Raise TypeError r1)"

text \<open>
  \<open>newRoute.params = merge(newRoute.params, params)\<close> and
  \<open>newRoute = merge(newRoute, { query, hash })\<close>: both write into the object that
  \<open>_match\<close> created, and \<open>merge\<close> returns that same object.
\<close>

definition merge_route_params :: "router \<Rightarrow> ref \<Rightarrow> jsobject option \<Rightarrow> router" where
  "merge_route_params r a ps =
     (case ps of
        None \<Rightarrow> r
      | Some src \<Rightarrow>
          r\<lparr>heap := (heap r)[a := (heap r ! a)\<lparr>params := merge_object (params (heap r ! a)) src\<rparr>]\<rparr>)"

definition merge_query_hash :: "router \<Rightarrow> ref \<Rightarrow> string option \<Rightarrow> string option \<Rightarrow> router" where
  "merge_query_hash r a q h =
     r\<lparr>heap := (heap r)[a := (heap r ! a)\<lparr>query := q, hash := h\<rparr>]\<rparr>"

fun first_answer :: "jsval option list \<Rightarrow> jsval option" where
  "first_answer [] = None"
| "first_answer (None # rest) = first_answer rest"
| "first_answer (Some v # rest) = Some v"

text \<open>
  The executor of \<open>beforePromise\<close>. The method of the class destroys the instance
  of the previous route, if there is one, and calls \<open>next()\<close>.
\<close>

definition before_executor :: "router \<Rightarrow> ref \<Rightarrow> jsval option \<times> router" where
  "before_executor r a =
     (let from = map_option (\<lambda>l. heap r ! l) (lastRoute r); to = Some (heap r ! a);
          heard = map (\<lambda>h. h from to) (beforeEachChanged r)
      in case beforeEach r of
           NotAFunction \<Rightarrow> (Some (JBool True), r)
         | DefaultHook \<Rightarrow>
             (let r1 = emit (BeforeEachCall (lastRoute r) a (heap r ! a)) r;
                  r2 = (case from of
                          None \<Rightarrow> r1
                        | Some f \<Rightarrow> (case inst f of None \<Rightarrow> r1 | Some i \<Rightarrow> emit (Destroy i) r1))
              in (first_answer (Some JUndefined # heard),
                  emit (BeforeEachDispatch (lastRoute r) a (heap r ! a)) r2))
         | UserHook h \<Rightarrow>
             (first_answer (h from to # heard),
              emit (BeforeEachDispatch (lastRoute r) a (heap r ! a))
                (emit (BeforeEachCall (lastRoute r) a (heap r ! a)) r)))"

text \<open>
  The first half of \<open>navigate\<close>, up to and including the two merges: the path is
  found (by name first), cleaned and matched, and the route object that \<open>_match\<close>
  created is completed. The result is what \<open>_match\<close> returned together with the
  cleaned path, or the reason why \<open>navigate\<close> returned early.
\<close>

definition resolve_route :: "router \<Rightarrow> nav_arg \<Rightarrow> (nav_exit + matched \<times> string) outcome" where
  "resolve_route r arg =
     (case (case arg_name arg of
              None \<Rightarrow> Return (arg_path arg) r
            | Some nm \<Rightarrow> path_by_name r nm) of
        Raise e r1 \<Rightarrow> Raise e r1
      | Return p r1 \<Rightarrow>
          if p = Null
          then Return (Inl NoPath) (emit (ConsoleError ''Router.navigate : Cannot get route path'') r1)
          else
            (case Router_cleanPath r1 p of
               (cleaned, r2) \<Rightarrow>
                 (case Router_match r2 cleaned of
                    Raise e r3 \<Rightarrow> Raise e r3
                  | Return Null r3 \<Rightarrow>
                      Return (Inl NoMatch)
                        (emit (ConsoleError (''Router.navigate : No matching route found with path : ''
                                @ quoted (case cleaned of Val c \<Rightarrow> c | _ \<Rightarrow> ''undefined''))) r3)
                  | Return Undefined r3 \<Rightarrow> Raise TypeError r3
                  | Return (Val m) r3 \<Rightarrow>
                      (let newRoute = m_route m;
                           r4 = merge_route_params r3 newRoute (arg_params arg);
                           r5 = merge_query_hash r4 newRoute (arg_query arg) (arg_hash arg)
                       in Return (Inr (m, (case cleaned of Val c \<Rightarrow> c | _ \<Rightarrow> []))) r5))))"

text \<open>The part of \<open>navigate\<close> that runs before it returns to its caller.\<close>

definition Router_navigate_sync :: "router \<Rightarrow> nav_arg \<Rightarrow> (nav_exit + pending) outcome" where
  "Router_navigate_sync r arg =
     (let localePrefix = (if localeName r \<noteq> [] then addLeadingSlash (localeName r) else [])
      in case resolve_route r arg of
           Raise e r5 \<Rightarrow> Raise e r5
         | Return (Inl ex) r5 \<Rightarrow> Return (Inl ex) r5
         | Return (Inr (m, cleaned)) r5 \<Rightarrow>
             (case Router_isRouteEqual r5 (currentRoute r5) (Some (m_route m)) of
                (True, r6) \<Rightarrow> Return (Inl SameRoute) r6
              | (False, r6) \<Rightarrow>
                  if m_callback m = None \<and> \<not> is_function (m_component m)
                  then Return (Inl NoHandler)
                         (if debugMode r6
                          then emit (ConsoleLog ''Router.navigate Cancel because no callback or component found'') r6
                          else r6)
                  else
                    (case before_executor r6 (m_route m) of
                       (answer, r7) \<Rightarrow>
                         Return (Inr \<lparr>p_newRoute = m_route m,
                                      p_path = cleaned,
                                      p_query = arg_query arg,
                                      p_hash = arg_hash arg,
                                      p_silent = arg_silent arg,
                                      p_callback = m_callback m,
                                      p_component = m_component m,
                                      p_localePrefix = localePrefix,
                                      p_resolved = answer\<rparr>) r7)))"

text \<open>How one call of \<open>navigate\<close> ends, once its promises are followed to the end.\<close>

datatype nav_result =
    Exited nav_exit
  | BeforeStalled
  | BeforeCancelled
  | BeforeRejected js_error
  | AfterStalled
  | AfterCancelled
  | AfterRejected js_error
  | Settled

record after_pending =
  ap_newRoute :: ref
  ap_callback :: "nat option"
  ap_component :: "component option"
  ap_resolved :: "jsval option"

text \<open>\<open>new component()\<close> and \<open>this.currentRoute.instance = pageInstance\<close>.\<close>

definition instantiate_component :: "router \<Rightarrow> component option \<Rightarrow> unit outcome" where
  "instantiate_component r cpt =
     (case cpt of
        Some (CFunction c) \<Rightarrow>
          (case currentRoute r of
             None \<Rightarrow> Raise TypeError (emit (NewComponent c) r)
           | Some cur \<Rightarrow>
               Return () ((emit (NewComponent c) r)
                            \<lparr>heap := (heap r)[cur := (heap r ! cur)\<lparr>inst := Some c\<rparr>]\<rparr>))
      | _ \<Rightarrow> Return () r)"

text \<open>The executor of \<open>afterPromise\<close>; the method of the class only calls \<open>next()\<close>.\<close>

definition after_executor :: "router \<Rightarrow> jsval option \<times> router" where
  "after_executor r =
     (let from = map_option (\<lambda>l. heap r ! l) (lastRoute r);
          to = map_option (\<lambda>c. heap r ! c) (currentRoute r);
          heard = map (\<lambda>h. h from to) (afterEachChanged r);
          r1 = emit (AfterEachDispatch (lastRoute r) (currentRoute r) to)
                 (emit (AfterEachCall (lastRoute r) (currentRoute r) to) r)
      in case afterEach r of
           NotAFunction \<Rightarrow> (Some (JBool True), r)
         | DefaultHook \<Rightarrow> (first_answer (Some JUndefined # heard), r1)
         | UserHook h \<Rightarrow> (first_answer (h from to # heard), r1))"

text \<open>
  The callback of \<open>beforePromise.then\<close>, with the \<open>catch\<close> behind it: an error
  raised inside is logged and goes no further. The parameter has the default
  \<open>true\<close>, which JavaScript applies when the value is \<open>undefined\<close>.
\<close>

definition Router_before_then :: "router \<Rightarrow> pending \<Rightarrow> (nav_result + after_pending) \<times> router" where
  "Router_before_then r p =
     (case p_resolved p of
        None \<Rightarrow> (Inl BeforeStalled, r)
      | Some v \<Rightarrow>
          if truthy (if v = JUndefined then JBool True else v)
          then
            (let r1 = r\<lparr>currentRoute := Some (p_newRoute p)\<rparr>;
                 locationObj = \<lparr>lo_pathname = p_localePrefix p @ p_path p,
                                lo_search = p_query p,
                                lo_hash = p_hash p,
                                lo_state = p_newRoute p\<rparr>
             in case (if p_silent p
                      then history_replace (r1\<lparr>action := REPLACE_ACTION\<rparr>) locationObj
                      else history_push (r1\<lparr>action := PUSH_ACTION\<rparr>) locationObj) of
                  Raise e r2 \<Rightarrow> (Inl (BeforeRejected e), emit (ConsoleLog ''Router.hooks'') r2)
                | Return u r2 \<Rightarrow>
                    (case instantiate_component r2 (p_component p) of
                       Raise e r3 \<Rightarrow> (Inl (BeforeRejected e), emit (ConsoleLog ''Router.hooks'') r3)
                     | Return u' r3 \<Rightarrow>
                         (case after_executor r3 of
                            (answer, r4) \<Rightarrow>
                              (Inr \<lparr>ap_newRoute = p_newRoute p,
                                    ap_callback = p_callback p,
                                    ap_component = p_component p,
                                    ap_resolved = answer\<rparr>, r4))))
          else (Inl BeforeCancelled,
                if debugMode r
                then emit (ConsoleLog ''Router.hooks beforeEach stopped route change'') r
                else r))"

text \<open>
  Mounting in the callback of \<open>afterPromise.then\<close>. \<open>pageInstance\<close> may be
  \<open>undefined\<close> and \<open>_mountEl\<close> may be \<open>null\<close>; using either raises.
\<close>

definition mount_component :: "router \<Rightarrow> component option \<Rightarrow> unit outcome" where
  "mount_component r cpt =
     (if is_function cpt
      then (case currentRoute r of
              None \<Rightarrow> Raise TypeError r
            | Some c \<Rightarrow>
                (let r1 = r\<lparr>pageInstance := inst (heap r ! c)\<rparr>
                 in case pageInstance r1 of
                      None \<Rightarrow> Raise TypeError r1
                    | Some i \<Rightarrow>
                        if preRendered r1 \<and> isFirstRoute r1
                        then (if mountEl r1 then Return () (emit (PreRenderMount i) r1)
                              else Raise TypeError r1)
                        else Return () (emit (Mount i) r1)))
      else Return () r)"

text \<open>The callback of \<open>afterPromise.then\<close>; nothing catches what it raises.\<close>

definition Router_after_then :: "router \<Rightarrow> after_pending \<Rightarrow> nav_result \<times> router" where
  "Router_after_then r ap =
     (case ap_resolved ap of
        None \<Rightarrow> (AfterStalled, r)
      | Some v \<Rightarrow>
          if truthy (if v = JUndefined then JBool True else v)
          then
            (let r1 = (case ap_callback ap of
                         Some f \<Rightarrow> emit (CallbackCall f (currentRoute r)) r
                       | None \<Rightarrow> r)
             in case mount_component r1 (ap_component ap) of
                  Raise e r2 \<Rightarrow> (AfterRejected e, emit (UnhandledRejection e) r2)
                | Return u r2 \<Rightarrow>
                    (let r3 = emit ParseAnchors r2
                     in (Settled,
                         if lastRoute r3 = None
                         then r3\<lparr>isFirstRoute := False, lastRoute := Some (ap_newRoute ap)\<rparr>
                         else r3\<lparr>lastRoute := currentRoute r3\<rparr>)))
          else (AfterCancelled,
                if debugMode r
                then emit (ConsoleLog ''Router.hooks afterEach stopped route change'') r
                else r))"

text \<open>
  One call of \<open>navigate\<close> followed through its two promise callbacks, with no other
  work of the router in between.
\<close>

definition Router_navigate :: "router \<Rightarrow> nav_arg \<Rightarrow> nav_result outcome" where
  "Router_navigate r arg =
     (case Router_navigate_sync r arg of
        Raise e r1 \<Rightarrow> Raise e r1
      | Return (Inl ex) r1 \<Rightarrow> Return (Exited ex) r1
      | Return (Inr p) r1 \<Rightarrow>
          (case Router_before_then r1 p of
             (Inl res, r2) \<Rightarrow> Return res r2
           | (Inr ap, r2) \<Rightarrow>
               (case Router_after_then r2 ap of (res, r3) \<Rightarrow> Return res r3)))"


section \<open>Construction\<close>

text \<open>
  The environment the constructor runs in: whether \<open>window\<close>, \<open>window.history\<close>,
  \<open>window.history.pushState\<close> and \<open>document\<close> exist, the location a browser
  or hash history starts at, what the histories call (see \<open>history_adapter\<close>), and
  the library function \<open>pathToRegexp\<close>, which returns the matcher and the key names
  for a path pattern.
\<close>

record environment =
  window_defined :: bool
  window_history :: bool
  history_pushState :: bool
  document_defined :: bool
  initial_location :: location
  env_decodeURI :: "string \<Rightarrow> string option"
  env_resolvePathname :: "string \<Rightarrow> string \<Rightarrow> string"
  env_backend_error :: "location \<Rightarrow> js_error option"
  pathToRegexp :: "string \<Rightarrow> (string \<Rightarrow> string option list option) \<times> string list"

record router_options =
  o_routes :: "route_def list"
  o_components :: "string \<Rightarrow> component option"
  o_basePath :: string
  o_mode :: string
  o_locale :: string
  o_preRendered :: bool
  o_restoreScroll :: bool
  o_debugMode :: bool

definition default_options :: router_options where
  "default_options =
     \<lparr>o_routes = [], o_components = (\<lambda>k. None), o_basePath = ''/'', o_mode = BROWSER_MODE,
      o_locale = [], o_preRendered = False, o_restoreScroll = False, o_debugMode = False\<rparr>"

text \<open>
  A memory history starts at the path \<open>/\<close> and has no backend; a browser or hash
  history starts at the location of the window.
\<close>

definition memory_location :: location where
  "memory_location =
     \<lparr>pathname = ''/'', search = [], loc_hash = [], loc_query = Undefined, loc_state = None\<rparr>"

definition createMemoryHistory :: "environment \<Rightarrow> history_adapter" where
  "createMemoryHistory env =
     \<lparr>location = memory_location, decodeURI = env_decodeURI env,
      resolvePathname = env_resolvePathname env, backend_error = (\<lambda>loc. None)\<rparr>"

definition createWindowHistory :: "environment \<Rightarrow> history_adapter" where
  "createWindowHistory env =
     \<lparr>location = initial_location env, decodeURI = env_decodeURI env,
      resolvePathname = env_resolvePathname env, backend_error = env_backend_error env\<rparr>"

definition supportsBrowserHistory :: "environment \<Rightarrow> bool" where
  "supportsBrowserHistory env =
     (window_defined env \<and> window_history env \<and> history_pushState env)"

text \<open>
  \<open>_createHistory\<close>. An unknown mode, or browser mode without support, is reported
  and leaves \<open>history\<close> at \<open>null\<close>. The test \<open>if (supportsScrollRestoration)\<close>
  names the function without calling it, so it always holds, and the assignment to
  \<open>window.history.scrollRestoration\<close> is always attempted.
\<close>

definition Router_createHistory :: "router \<Rightarrow> environment \<Rightarrow> unit outcome" where
  "Router_createHistory r env =
     (let r1 = (if debugMode r then emit (ConsoleLog (''Router Browser history mode : '' @ mode r)) r
                else r);
          r2 = (if supportsBrowserHistory env \<and> mode r1 = BROWSER_MODE
                then r1\<lparr>history := Some (createWindowHistory env)\<rparr>
                else if mode r1 = HASH_MODE
                then r1\<lparr>history := Some (createWindowHistory env)\<rparr>
                else if mode r1 = MEMORY_MODE
                then r1\<lparr>history := Some (createMemoryHistory env)\<rparr>
                else emit (ConsoleError (''Router : Unknown history browser mode : '' @ quoted (mode r1))) r1)
      in if \<not> window_defined env then Raise ReferenceError r2
         else if \<not> window_history env then Raise TypeError r2
         else Return () (emit (SetScrollRestoration (if restoreScroll r2 then ''auto'' else ''manual'')) r2))"

text \<open>\<open>_bind\<close>: outside hash mode it calls \<open>this.history.listen\<close>, whatever \<open>history\<close> is.\<close>

definition Router_bind :: "router \<Rightarrow> environment \<Rightarrow> unit outcome" where
  "Router_bind r env =
     (if mode r = HASH_MODE
      then (if window_defined env then Return () (emit AddHashChangeListener r)
            else Raise ReferenceError r)
      else (case history r of
              None \<Rightarrow> Raise TypeError r
            | Some h \<Rightarrow> Return () (emit HistoryListen (r\<lparr>unlisten := True\<rparr>))))"

definition Router_parseRoutes :: "router \<Rightarrow> environment \<Rightarrow> router" where
  "Router_parseRoutes r env =
     r\<lparr>routeData := routeData r @
          map (\<lambda>d. \<lparr>route = d,
                    regexp = fst (pathToRegexp env (def_path d)),
                    keys = snd (pathToRegexp env (def_path d))\<rparr>) (routes r)\<rparr>"

definition Router_parseAnchors :: "router \<Rightarrow> environment \<Rightarrow> unit outcome" where
  "Router_parseAnchors r env =
     (if document_defined env then Return () (emit ParseAnchors r) else Raise ReferenceError r)"

text \<open>The assignments at the head of the constructor.\<close>

definition constructor_fields :: "router_options \<Rightarrow> router" where
  "constructor_fields opts =
     \<lparr>routes = o_routes opts,
      components = o_components opts,
      basePath = stripTrailingSlash (o_basePath opts),
      mode = o_mode opts,
      localeName = stripSlashes (o_locale opts),
      preRendered = o_preRendered opts,
      restoreScroll = o_restoreScroll opts,
      debugMode = o_debugMode opts,
      history = None,
      routeData = [],
      action = REPLACE_ACTION,
      lastRoute = None,
      currentRoute = None,
      pageInstance = None,
      isFirstRoute = True,
      beforeEach = DefaultHook,
      afterEach = DefaultHook,
      beforeEachChanged = [],
      afterEachChanged = [],
      mountEl = False,
      unlisten = False,
      heap = [],
      events = []\<rparr>"

definition Router_constructor :: "router_options \<Rightarrow> environment \<Rightarrow> unit outcome" where
  "Router_constructor opts env =
     (case Router_createHistory (constructor_fields opts) env of
        Raise e r1 \<Rightarrow> Raise e r1
      | Return u r1 \<Rightarrow>
          (case Router_bind r1 env of
             Raise e r2 \<Rightarrow> Raise e r2
           | Return u' r2 \<Rightarrow> Router_parseAnchors (Router_parseRoutes r2 env) env))"

section \<open>Observations\<close>

fun state_of :: "'a outcome \<Rightarrow> router" where
  "state_of (Raise e r) = r"
| "state_of (Return x r) = r"

fun raised :: "'a outcome \<Rightarrow> js_error option" where
  "raised (Raise e r) = Some e"
| "raised (Return x r) = None"

fun returned :: "'a outcome \<Rightarrow> 'a option" where
  "returned (Raise e r) = None"
| "returned (Return x r) = Some x"

fun is_history_event :: "event \<Rightarrow> bool" where
  "is_history_event (HistoryPush lo) = True"
| "is_history_event (HistoryReplace lo) = True"
| "is_history_event _ = False"


text \<open>The route object that a call of \<open>_match\<close> returned, if it returned one.\<close>

fun matched_route :: "matched nullable outcome \<Rightarrow> route_state option" where
  "matched_route (Return (Val m) r) = Some (heap r ! m_route m)"
| "matched_route _ = None"

text \<open>No route of the list matches the path.\<close>

definition none_match :: "compiled_route list \<Rightarrow> string \<Rightarrow> bool" where
  "none_match rds pth = list_all (\<lambda>cr. regexp cr pth = None) rds"

text \<open>
  The binding the specification asks of \<open>params\<close>: the i-th declared key is bound
  to the i-th capture, for every i, and there are as many captures as keys.
\<close>

definition bound_positionally :: "jsobject \<Rightarrow> string list \<Rightarrow> string option list \<Rightarrow> bool" where
  "bound_positionally ps ks cs = list_all2 (\<lambda>k c. js_get ps k = capture_value c) ks cs"

text \<open>
  Console events; the events that \<open>navigate\<close> can cause before its first promise
  callback runs (console output, the before-each hook and its notification, the
  destruction of the previous instance); and the pairs of states where the second
  differs from the first only by new objects in the store and by new events of a
  given kind.
\<close>

fun is_console :: "event \<Rightarrow> bool" where
  "is_console (ConsoleError m) = True"
| "is_console (ConsoleLog m) = True"
| "is_console _ = False"

fun is_before_event :: "event \<Rightarrow> bool" where
  "is_before_event (BeforeEachCall a b ob) = True"
| "is_before_event (BeforeEachDispatch a b ob) = True"
| "is_before_event (Destroy i) = True"
| "is_before_event (ConsoleError m) = True"
| "is_before_event (ConsoleLog m) = True"
| "is_before_event _ = False"

definition only_events :: "(event \<Rightarrow> bool) \<Rightarrow> router \<Rightarrow> router \<Rightarrow> bool" where
  "only_events P r r' \<longleftrightarrow>
     (\<exists>hs es. r' = r\<lparr>heap := heap r @ hs, events := events r @ es\<rparr> \<and> list_all P es)"

section \<open>Example data\<close>

text \<open>
  A small stand-in for \<open>pathToRegexp\<close>, used in the examples only: a pattern is a
  sequence of segments separated by slashes, a segment that starts with a colon is a
  named parameter and matches any non-empty segment, every other segment matches
  itself.
\<close>

fun split_on :: "char \<Rightarrow> string \<Rightarrow> string list" where
  "split_on d [] = [[]]"
| "split_on d (c # cs) =
     (if c = d then [] # split_on d cs
      else (case split_on d cs of [] \<Rightarrow> [[c]] | x # xs \<Rightarrow> (c # x) # xs))"

fun match_segments :: "string list \<Rightarrow> string list \<Rightarrow> string option list option" where
  "match_segments [] [] = Some []"
| "match_segments (p # ps) (s # ss) =
     (if p \<noteq> [] \<and> hd p = CHR '':''
      then (if s = [] then None else map_option ((#) (Some s)) (match_segments ps ss))
      else if p = s then match_segments ps ss else None)"
| "match_segments _ _ = None"

definition example_pathToRegexp ::
  "string \<Rightarrow> (string \<Rightarrow> string option list option) \<times> string list" where
  "example_pathToRegexp pat =
     (\<lambda>pth. match_segments (split_on CHR ''/'' pat) (split_on CHR ''/'' pth),
      map tl (filter (\<lambda>p. p \<noteq> [] \<and> hd p = CHR '':'') (split_on CHR ''/'' pat)))"

text \<open>
  A stand-in for \<open>decodeURI\<close>, used in the examples only: it throws on a percent
  sign that is not followed by two hexadecimal digits and otherwise returns the text
  as it is, escapes included.
\<close>

definition is_hex :: "char \<Rightarrow> bool" where
  "is_hex c = (is_digit c \<or> c \<in> set ''abcdefABCDEF'')"

fun percent_ok :: "string \<Rightarrow> bool" where
  "percent_ok [] = True"
| "percent_ok [c] = (c \<noteq> CHR ''%'')"
| "percent_ok [c, d] = (c \<noteq> CHR ''%'' \<and> d \<noteq> CHR ''%'')"
| "percent_ok (c # d # e # rest) =
     (if c = CHR ''%'' then is_hex d \<and> is_hex e \<and> percent_ok rest
      else percent_ok (d # e # rest))"

definition example_decodeURI :: "string \<Rightarrow> string option" where
  "example_decodeURI t = (if percent_ok t then Some t else None)"

definition browser_env :: environment where
  "browser_env =
     \<lparr>window_defined = True, window_history = True, history_pushState = True,
      document_defined = True,
      initial_location = \<lparr>pathname = ''/'', search = [], loc_hash = [],
                           loc_query = Undefined, loc_state = None\<rparr>,
      env_decodeURI = example_decodeURI,
      env_resolvePathname = (\<lambda>to from. CHR ''/'' # to),
      env_backend_error = (\<lambda>loc. None),
      pathToRegexp = example_pathToRegexp\<rparr>"

text \<open>
  Four routes: a callback route, a route with a parameter, a second pattern that also
  matches paths of that route, and a component route.
\<close>

definition example_routes :: "route_def list" where
  "example_routes =
     [\<lparr>def_name = ''home'', def_path = ''/'', def_callback = Some 0, def_component = None\<rparr>,
      \<lparr>def_name = ''user'', def_path = ''/users/:id'', def_callback = Some 1, def_component = None\<rparr>,
      \<lparr>def_name = ''me'', def_path = ''/users/me'', def_callback = Some 2, def_component = None\<rparr>,
      \<lparr>def_name = ''about'', def_path = ''/about'', def_callback = None, def_component = Some ''About''\<rparr>]"

definition example_options :: router_options where
  "example_options =
     default_options
       \<lparr>o_routes := example_routes,
        o_components := (\<lambda>k. if k = ''About'' then Some (CFunction 7) else None)\<rparr>"

definition example_router :: router where
  "example_router = state_of (Router_constructor example_options browser_env)"

text \<open>The options object \<open>{}\<close>.\<close>

definition no_options :: nav_options where
  "no_options =
     \<lparr>opt_path = Undefined, opt_query = Undefined, opt_hash = Undefined,
      opt_name = Undefined, opt_silent = False, opt_params = None\<rparr>"

text \<open>A router whose only route declares the same parameter name twice.\<close>

definition pair_options :: router_options where
  "pair_options =
     default_options
       \<lparr>o_routes := [\<lparr>def_name = ''pair'', def_path = ''/:id/:id'',
                       def_callback = Some 0, def_component = None\<rparr>]\<rparr>"

definition pair_router :: router where
  "pair_router = state_of (Router_constructor pair_options browser_env)"

section \<open>Observations on a navigation\<close>

text \<open>
  The pushes and replaces among the events, the events of the after stage (the
  after-each hook and the route callback), and the events added between two states.
\<close>

definition history_events :: "router \<Rightarrow> event list" where
  "history_events r = filter is_history_event (events r)"


definition new_events :: "router \<Rightarrow> router \<Rightarrow> event list" where
  "new_events r r' = drop (length (events r)) (events r')"

text \<open>The object \<open>currentRoute\<close> refers to, and the one a resolution produced.\<close>

definition current_route_object :: "router \<Rightarrow> route_state option" where
  "current_route_object r = map_option (\<lambda>c. heap r ! c) (currentRoute r)"

fun resolved_route :: "(nav_exit + matched \<times> string) outcome \<Rightarrow> route_state option" where
  "resolved_route (Return (Inr (m, c)) r) = Some (heap r ! m_route m)"
| "resolved_route _ = None"

text \<open>
  Deep equality of two flat objects, as the specification uses the term: the same
  keys, each bound to the same value, in whatever order.
\<close>

definition deep_equal :: "jsobject \<Rightarrow> jsobject \<Rightarrow> bool" where
  "deep_equal a b =
     (list_all (\<lambda>(k, v). map_of b k = Some v) a \<and> list_all (\<lambda>(k, v). map_of a k = Some v) b)"

text \<open>What the synchronous part of \<open>navigate\<close> left pending, and the value its
  before-promise was resolved with.\<close>

fun pending_of :: "(nav_exit + pending) outcome \<Rightarrow> pending option" where
  "pending_of (Return (Inr p) r) = Some p"
| "pending_of _ = None"


text \<open>
  The commit step. A navigation reaches it when its before-promise is resolved with a
  value that the callback takes for true (\<open>undefined\<close> is replaced by the default
  \<open>true\<close>); \<open>committing\<close> is then the location object that the callback hands
  to the history. The results of the after stage are those that lie behind a commit
  that the history accepted.
\<close>

definition proceeds :: "jsval option \<Rightarrow> bool" where
  "proceeds answer =
     (case answer of
        None \<Rightarrow> False
      | Some v \<Rightarrow> truthy (if v = JUndefined then JBool True else v))"

definition commit_location :: "pending \<Rightarrow> location_obj" where
  "commit_location p =
     \<lparr>lo_pathname = p_localePrefix p @ p_path p, lo_search = p_query p,
      lo_hash = p_hash p, lo_state = p_newRoute p\<rparr>"


fun past_commit :: "nav_result option \<Rightarrow> bool" where
  "past_commit (Some AfterStalled) = True"
| "past_commit (Some AfterCancelled) = True"
| "past_commit (Some (AfterRejected e)) = True"
| "past_commit (Some Settled) = True"
| "past_commit _ = False"

text \<open>
  The calls of the before-each hook and of the after-each hook, each with the
  dispatch of its signal.
\<close>

fun is_before_hook_event :: "event \<Rightarrow> bool" where
  "is_before_hook_event (BeforeEachCall a b ob) = True"
| "is_before_hook_event (BeforeEachDispatch a b ob) = True"
| "is_before_hook_event _ = False"

fun is_after_hook_event :: "event \<Rightarrow> bool" where
  "is_after_hook_event (AfterEachCall a b ob) = True"
| "is_after_hook_event (AfterEachDispatch a b ob) = True"
| "is_after_hook_event _ = False"

definition before_hook_events :: "router \<Rightarrow> event list" where
  "before_hook_events r = filter is_before_hook_event (events r)"

definition after_hook_events :: "router \<Rightarrow> event list" where
  "after_hook_events r = filter is_after_hook_event (events r)"

text \<open>
  What the two merges of \<open>navigate\<close> make of the route object that \<open>_match\<close>
  created: the params merged with those of the request, if it has any, and the query
  and hash of the request.
\<close>

definition merged_route :: "nav_arg \<Rightarrow> route_state \<Rightarrow> route_state" where
  "merged_route arg ob =
     ob\<lparr>params := (case arg_params arg of
                     None \<Rightarrow> params ob
                   | Some src \<Rightarrow> merge_object (params ob) src),
        query := arg_query arg, hash := arg_hash arg\<rparr>"

text \<open>
  The store after \<open>this.currentRoute.instance = pageInstance\<close> for the route
  object at \<open>a\<close>, and the properties of a route object other than \<open>instance\<close>.
\<close>

definition attach_instance :: "route_state list \<Rightarrow> ref \<Rightarrow> component option \<Rightarrow> route_state list" where
  "attach_instance hp a cpt =
     (case cpt of
        Some (CFunction c) \<Rightarrow> hp[a := (hp ! a)\<lparr>inst := Some c\<rparr>]
      | _ \<Rightarrow> hp)"

definition route_fields ::
  "route_state \<Rightarrow> string \<times> string \<times> jsobject \<times> string option \<times> string option" where
  "route_fields ob = (name ob, path ob, params ob, query ob, hash ob)"

section \<open>Example navigations\<close>

text \<open>The example router after a visit to \<open>/users/42\<close>.\<close>

definition visited_router :: router where
  "visited_router = state_of (Router_navigate example_router (PathString ''/users/42''))"

definition same_route_request :: nav_arg where
  "same_route_request =
     Options (no_options\<lparr>opt_path := Val ''/users/42'', opt_query := Val ''?tab=1''\<rparr>)"

text \<open>
  The example router after \<open>navigate({ path: '/', params: { x: '1', y: '2' } })\<close>,
  and the request \<open>{ path: '/', params: { y: '2', x: '1' } }\<close>.
\<close>

definition xy_router :: router where
  "xy_router =
     state_of (Router_navigate example_router
       (Options (no_options\<lparr>opt_path := Val ''/'',
                             opt_params := Some [(''x'', JStr ''1''), (''y'', JStr ''2'')]\<rparr>)))"

definition yx_request :: nav_arg where
  "yx_request =
     Options (no_options\<lparr>opt_path := Val ''/'',
                          opt_params := Some [(''y'', JStr ''2''), (''x'', JStr ''1'')]\<rparr>)"



text \<open>
  A request for the component route; a silent request and the same request with
  \<open>silent\<close> false; a path whose percent sign makes \<open>decodeURI\<close> throw.
\<close>

definition about_request :: nav_arg where
  "about_request =
     Options (no_options\<lparr>opt_path := Val ''/about'', opt_query := Val ''?a=1''\<rparr>)"




text \<open>
  The example router with a before-each hook that calls \<open>next(to.query)\<close>: it
  answers with the query of the route object it is handed.
\<close>

definition query_hook :: hook where
  "query_hook from to =
     (case to of
        None \<Rightarrow> None
      | Some ob \<Rightarrow> Some (case query ob of None \<Rightarrow> JNull | Some q \<Rightarrow> JStr q))"

definition observing_router :: router where
  "observing_router = example_router\<lparr>beforeEach := UserHook query_hook\<rparr>"

section \<open>Properties\<close>

lemmas str_defs = stripTrailingSlash_def endsWith_def startsWith_def js_indexOf_def
  js_slice_def js_slice_from_def js_substr_def rel_index_def stripSlashes_def
  addLeadingSlash_def

lemmas mode_defs = BROWSER_MODE_def HASH_MODE_def MEMORY_MODE_def

lemmas action_defs = PUSH_ACTION_def REPLACE_ACTION_def POP_ACTION_def

lemmas nav_defs = Router_navigate_def Router_navigate_sync_def resolve_route_def
  path_by_name_def Router_matchRouteByName_def Router_cleanPath_def Router_match_def
  route_found_def merge_route_params_def merge_query_hash_def Router_isRouteEqual_def
  before_executor_def Router_before_then_def Router_after_then_def history_push_def
  history_replace_def history_transition_def history_accepts_def createLocation_def
  with_prefix_def quoted_def
  Router_dispatchRouteChange_def instantiate_component_def after_executor_def
  mount_component_def emit_def

lemmas obj_defs = js_set_def define_own_def baseAssignValue_def key_in_def
  object_prototype_names_def has_key_def js_get_def array_index_def is_digit_def
  dec_value_def merge_object_def assignMergeValue_def JSON_stringify_def json_quote_def
  json_escape_char_def hex_digit_def

subsection \<open>The example router\<close>

lemma example_router_eq:
  "example_router =
     \<lparr>routes = example_routes,
      components = (\<lambda>k. if k = ''About'' then Some (CFunction 7) else None),
      basePath = [], mode = ''browser'', localeName = [],
      preRendered = False, restoreScroll = False, debugMode = False,
      history = Some (createWindowHistory browser_env),
      routeData = map (\<lambda>d. \<lparr>route = d,
                    regexp = fst (example_pathToRegexp (def_path d)),
                    keys = snd (example_pathToRegexp (def_path d))\<rparr>) example_routes,
      action = ''replace'', lastRoute = None, currentRoute = None,
      pageInstance = None, isFirstRoute = True, beforeEach = DefaultHook,
      afterEach = DefaultHook, beforeEachChanged = [], afterEachChanged = [],
      mountEl = False, unlisten = True, heap = [],
      events = [SetScrollRestoration ''manual'', HistoryListen, ParseAnchors]\<rparr>"
  by (simp add: example_router_def Router_constructor_def constructor_fields_def
        Router_createHistory_def Router_bind_def Router_parseRoutes_def
        Router_parseAnchors_def supportsBrowserHistory_def emit_def example_options_def
        default_options_def browser_env_def mode_defs action_defs str_defs)

lemmas example_defs = example_router_eq example_routes_def example_pathToRegexp_def
  no_options_def createWindowHistory_def browser_env_def example_decodeURI_def is_hex_def

subsection \<open>What the constructor leaves behind\<close>

lemma constructor_fields_simps:
  "mode (constructor_fields opts) = o_mode opts"
  "history (constructor_fields opts) = None"
  "basePath (constructor_fields opts) = stripTrailingSlash (o_basePath opts)"
  "localeName (constructor_fields opts) = stripSlashes (o_locale opts)"
  by (simp_all add: constructor_fields_def)

lemma createHistory_config:
  "basePath (state_of (Router_createHistory r env)) = basePath r"
  "localeName (state_of (Router_createHistory r env)) = localeName r"
  "mode (state_of (Router_createHistory r env)) = mode r"
  by (auto simp add: Router_createHistory_def emit_def Let_def)

lemma bind_config:
  "basePath (state_of (Router_bind r env)) = basePath r"
  "localeName (state_of (Router_bind r env)) = localeName r"
  by (auto simp add: Router_bind_def emit_def split: option.splits)

lemma parse_config:
  "basePath (state_of (Router_parseAnchors (Router_parseRoutes r env) env)) = basePath r"
  "localeName (state_of (Router_parseAnchors (Router_parseRoutes r env) env)) = localeName r"
  by (auto simp add: Router_parseAnchors_def Router_parseRoutes_def emit_def)

lemma constructor_config:
  "basePath (state_of (Router_constructor opts env)) = stripTrailingSlash (o_basePath opts)"
  "localeName (state_of (Router_constructor opts env)) = stripSlashes (o_locale opts)"
proof -
  let ?r0 = "constructor_fields opts"
  have "basePath (state_of (Router_constructor opts env)) = basePath ?r0
      \<and> localeName (state_of (Router_constructor opts env)) = localeName ?r0"
  proof (cases "Router_createHistory ?r0 env")
    case (Raise e r1)
    with createHistory_config [of ?r0 env] show ?thesis
      by (simp add: Router_constructor_def)
  next
    case ch: (Return u r1)
    show ?thesis
    proof (cases "Router_bind r1 env")
      case (Raise e r2)
      with ch createHistory_config [of ?r0 env] bind_config [of r1 env] show ?thesis
        by (simp add: Router_constructor_def)
    next
      case (Return u' r2)
      with ch createHistory_config [of ?r0 env] bind_config [of r1 env]
        parse_config [of r2 env] show ?thesis
        by (simp add: Router_constructor_def)
    qed
  qed
  then show
    "basePath (state_of (Router_constructor opts env)) = stripTrailingSlash (o_basePath opts)"
    "localeName (state_of (Router_constructor opts env)) = stripSlashes (o_locale opts)"
    by (simp_all add: constructor_fields_simps)
qed

lemma createHistory_unsupported:
  assumes "\<not> (supportsBrowserHistory env \<and> mode r = BROWSER_MODE)"
    and "mode r \<noteq> HASH_MODE" and "mode r \<noteq> MEMORY_MODE"
  shows "history (state_of (Router_createHistory r env)) = history r"
    and "ConsoleError (''Router : Unknown history browser mode : '' @ quoted (mode r))
           \<in> set (events (state_of (Router_createHistory r env)))"
    and "window_defined env \<and> window_history env
           \<Longrightarrow> raised (Router_createHistory r env) = None"
  using assms by (auto simp add: Router_createHistory_def emit_def Let_def)

lemma bind_no_history:
  assumes "history r = None" and "mode r \<noteq> HASH_MODE"
  shows "Router_bind r env = Raise TypeError r"
  using assms by (simp add: Router_bind_def)

subsection \<open>Unsupported history mode\<close>

text \<open>
  C9. The claim: constructing the router with an unsupported mode (not browser, hash
  or memory, or browser mode without HTML5 history support) reports the error once,
  leaves the history adapter \<open>null\<close>, and does not raise to the caller. The code
  reports the error and leaves \<open>history\<close> at \<open>null\<close>, but the constructor then
  always raises: in \<open>_bind\<close>, \<open>this.history.listen\<close> is called on \<open>null\<close> (a
  TypeError when \<open>window\<close> and \<open>window.history\<close> exist), or earlier at the
  assignment to \<open>window.history.scrollRestoration\<close> when they do not.
\<close>

theorem C9_unsupported_mode_constructor_raises:
  assumes "\<not> (supportsBrowserHistory env \<and> o_mode opts = BROWSER_MODE)"
    and "o_mode opts \<noteq> HASH_MODE" and "o_mode opts \<noteq> MEMORY_MODE"
  shows "raised (Router_constructor opts env) \<noteq> None
       \<and> (window_defined env \<and> window_history env
            \<longrightarrow> raised (Router_constructor opts env) = Some TypeError)
       \<and> history (state_of (Router_constructor opts env)) = None
       \<and> ConsoleError (''Router : Unknown history browser mode : '' @ quoted (o_mode opts))
           \<in> set (events (state_of (Router_constructor opts env)))"
proof -
  let ?r0 = "constructor_fields opts"
  have m: "\<not> (supportsBrowserHistory env \<and> mode ?r0 = BROWSER_MODE)"
    "mode ?r0 \<noteq> HASH_MODE" "mode ?r0 \<noteq> MEMORY_MODE"
    using assms by (simp_all add: constructor_fields_simps)
  note ch = createHistory_unsupported [OF m]
  show ?thesis
  proof (cases "Router_createHistory ?r0 env")
    case (Raise e r1)
    with ch show ?thesis
      by (auto simp add: Router_constructor_def constructor_fields_simps)
  next
    case (Return u r1)
    with ch(1,2) createHistory_config(3) [of ?r0 env]
    have h: "history r1 = None" and md: "mode r1 \<noteq> HASH_MODE"
      and ev: "ConsoleError (''Router : Unknown history browser mode : '' @ quoted (o_mode opts))
                 \<in> set (events r1)"
      using assms by (simp_all add: constructor_fields_simps)
    from Return bind_no_history [OF h md, of env] h ev show ?thesis
      by (simp add: Router_constructor_def)
  qed
qed

theorem C9_unsupported_mode_witness:
  "\<not> (supportsBrowserHistory browser_env
        \<and> o_mode (default_options\<lparr>o_mode := ''foo''\<rparr>) = BROWSER_MODE)
   \<and> o_mode (default_options\<lparr>o_mode := ''foo''\<rparr>) \<noteq> HASH_MODE
   \<and> o_mode (default_options\<lparr>o_mode := ''foo''\<rparr>) \<noteq> MEMORY_MODE
   \<and> window_defined browser_env \<and> window_history browser_env
   \<and> raised (Router_constructor (default_options\<lparr>o_mode := ''foo''\<rparr>) browser_env)
       = Some TypeError
   \<and> history (state_of (Router_constructor (default_options\<lparr>o_mode := ''foo''\<rparr>) browser_env))
       = None"
  using C9_unsupported_mode_constructor_raises
          [of browser_env "default_options\<lparr>o_mode := ''foo''\<rparr>"]
  by (simp add: mode_defs browser_env_def)

subsection \<open>Navigation by an unknown name\<close>

text \<open>
  C4. The claim: a \<open>navigate\<close> request whose name matches no registered route is
  logged and dropped, \<open>navigate\<close> returns normally and the router state is
  unchanged. The code leaves the state unchanged, but it logs nothing and it does not
  return normally: \<open>_matchRouteByName\<close> returns \<open>null\<close> and \<open>navigate\<close> reads
  \<open>.path\<close> of it, which raises a TypeError before the test \<open>path === null\<close> that
  was meant to report the failure.
\<close>

theorem C4_unknown_name_raises:
  assumes "opt_name opts = Val nm" and "nm \<noteq> []"
    and "find (\<lambda>d. def_name d = nm) (routes r) = None"
  shows "Router_navigate r (Options opts) = Raise TypeError r"
  using assms
  by (simp add: Router_navigate_def Router_navigate_sync_def resolve_route_def
        path_by_name_def Router_matchRouteByName_def Let_def)

theorem C4_unknown_name_witness:
  "opt_name (no_options\<lparr>opt_name := Val ''nope''\<rparr>) = Val ''nope'' \<and> ''nope'' \<noteq> []
   \<and> find (\<lambda>d. def_name d = ''nope'') (routes example_router) = None
   \<and> Router_navigate example_router (Options (no_options\<lparr>opt_name := Val ''nope''\<rparr>))
       = Raise TypeError example_router"
  using C4_unknown_name_raises
          [of "no_options\<lparr>opt_name := Val ''nope''\<rparr>" "''nope''" example_router]
  by (simp add: example_router_eq example_routes_def)

subsection \<open>Cleaning a path\<close>

text \<open>
  C7, as amended. For a router constructed with base path \<open>/app\<close> and locale
  \<open>en\<close>, cleaning \<open>/app/en/about/\<close> yields \<open>/about\<close>: the base path and the
  locale segment are removed and the trailing slash is stripped, while the leading
  slash of the remaining path stays (route patterns start with it).
\<close>

theorem C7_cleanPath_app_en:
  "fst (Router_cleanPath
          (state_of (Router_constructor (opts\<lparr>o_basePath := ''/app'', o_locale := ''en''\<rparr>) env))
          (Val ''/app/en/about/'')) = Val ''/about''"
  by (simp add: Router_cleanPath_def constructor_config str_defs)

text \<open>
  C7 as the specification states it, with the result \<open>about\<close>, fails on the code.
\<close>

theorem C7_cleanPath_counterexample:
  "fst (Router_cleanPath
          (state_of (Router_constructor
                       (default_options\<lparr>o_basePath := ''/app'', o_locale := ''en''\<rparr>) browser_env))
          (Val ''/app/en/about/'')) \<noteq> Val ''about''"
  by (simp add: Router_cleanPath_def constructor_config str_defs)

subsection \<open>Matching in registration order\<close>

lemma match_loop_first:
  assumes "i < length rds" and "regexp (rds ! i) pth = Some caps"
    and "none_match (take i rds) pth"
  shows "match_loop r rds pth = route_found r (rds ! i) caps pth"
  using assms
proof (induction rds arbitrary: i)
  case Nil
  then show ?case by simp
next
  case (Cons cr rds)
  show ?case
  proof (cases i)
    case 0
    with Cons.prems show ?thesis by simp
  next
    case (Suc j)
    with Cons.prems have "regexp cr pth = None" "j < length rds"
      "regexp (rds ! j) pth = Some caps" "none_match (take j rds) pth"
      by (simp_all add: none_match_def)
    with Cons.IH [of j] Suc show ?thesis by simp
  qed
qed

lemma bind_params_enough_keys:
  "length cs \<le> length ks \<Longrightarrow> \<exists>ps. bind_params ps0 ks cs = Some ps"
proof (induction ps0 ks cs rule: bind_params.induct)
qed simp_all

lemma route_found_name:
  assumes "history r \<noteq> None" and "length caps \<le> length (keys cr)"
  shows "map_option name (matched_route (route_found r cr caps pth)) = Some (def_name (route cr))"
proof -
  from bind_params_enough_keys [OF assms(2)] obtain ps
    where "bind_params [] (keys cr) caps = Some ps" by blast
  moreover from assms(1) obtain h where "history r = Some h" by blast
  ultimately show ?thesis
    by (simp add: route_found_def Let_def)
qed

text \<open>
  C1. When the route registered at position \<open>i\<close> matches the path and no route
  registered before it does, \<open>_match\<close> does exactly what the loop body does for
  route \<open>i\<close>, whatever the routes registered after it are and whether or not they
  match too; when that body succeeds (a history exists, a key for every capture) the
  route returned carries the name of route \<open>i\<close>. Nothing ranks the patterns.
\<close>

theorem C1_first_registered_route_wins:
  assumes "i < length (routeData r)"
    and "regexp (routeData r ! i) pth = Some caps"
    and "none_match (take i (routeData r)) pth"
  shows "Router_match r (Val pth) = route_found r (routeData r ! i) caps pth
       \<and> (history r \<noteq> None \<and> length caps \<le> length (keys (routeData r ! i))
            \<longrightarrow> map_option name (matched_route (Router_match r (Val pth)))
                  = Some (def_name (route (routeData r ! i))))"
  using match_loop_first [OF assms, of r] route_found_name [of r caps "routeData r ! i" pth]
  by (simp add: Router_match_def)

text \<open>
  The path \<open>/users/me\<close> matches both \<open>/users/:id\<close> (registered second) and the
  more specific \<open>/users/me\<close> (registered third); the route \<open>user\<close> is returned.
\<close>

theorem C1_first_registered_route_witness:
  "(1::nat) < length (routeData example_router)
   \<and> regexp (routeData example_router ! 1) ''/users/me'' = Some [Some ''me'']
   \<and> regexp (routeData example_router ! 2) ''/users/me'' = Some []
   \<and> none_match (take 1 (routeData example_router)) ''/users/me''
   \<and> map_option name (matched_route (Router_match example_router (Val ''/users/me'')))
       = Some ''user''"
  using C1_first_registered_route_wins [of 1 example_router "''/users/me''" "[Some ''me'']"]
  by (simp add: example_router_eq example_routes_def example_pathToRegexp_def none_match_def
        Router_match_def route_found_def Let_def)

subsection \<open>Parameters of a match\<close>

lemma pair_router_simps:
  "routeData pair_router =
     [\<lparr>route = \<lparr>def_name = ''pair'', def_path = ''/:id/:id'',
                  def_callback = Some 0, def_component = None\<rparr>,
       regexp = fst (example_pathToRegexp ''/:id/:id''),
       keys = [''id'', ''id'']\<rparr>]"
  "history pair_router = Some (createWindowHistory browser_env)"
  "heap pair_router = []"
  by (simp_all add: pair_router_def Router_constructor_def constructor_fields_def
        Router_createHistory_def Router_bind_def Router_parseRoutes_def
        Router_parseAnchors_def supportsBrowserHistory_def emit_def default_options_def
        browser_env_def mode_defs action_defs str_defs pair_options_def
        example_pathToRegexp_def)

lemma map_of_insert_index:
  "map_of obj k = None \<Longrightarrow>
   map_of (insert_index n k v obj) k' = (if k' = k then Some v else map_of obj k')"
  by (induction obj) (auto split: option.splits if_splits)

lemma set_insert_index: "set (insert_index n k v obj) = insert (k, v) (set obj)"
  by (induction obj) (auto split: option.splits if_splits)

lemma map_of_overwrite:
  "map_of (map (\<lambda>(k', v'). if k' = k then (k', v) else (k', v')) obj) k'' =
     (if k'' = k \<and> map_of obj k \<noteq> None then Some v else map_of obj k'')"
  by (induction obj) auto

lemma keys_overwrite:
  "map fst (map (\<lambda>(k', v'). if k' = k then (k', v) else (k', v')) obj) = map fst obj"
  by (induction obj) auto

lemma map_of_js_set:
  "k \<noteq> ''__proto__'' \<Longrightarrow>
   map_of (js_set obj k v) k' = (if k' = k then Some v else map_of obj k')"
  by (auto simp add: js_set_def define_own_def has_key_def map_of_insert_index
           map_of_overwrite map_add_def split: option.splits)

lemma keys_js_set:
  assumes "k \<noteq> ''__proto__''"
  shows "fst ` set (js_set obj k v) = insert k (fst ` set obj)"
proof (cases "map_of obj k")
  case None
  with assms show ?thesis
    by (auto simp add: js_set_def define_own_def has_key_def set_insert_index
          split: option.splits)
next
  case (Some y)
  then have "(k, y) \<in> set obj"
    by (rule map_of_SomeD)
  then have "k \<in> fst ` set obj"
    by force
  moreover have "fst ` set (map (\<lambda>(k', v'). if k' = k then (k', v) else (k', v')) obj)
                 = fst ` set obj"
    using keys_overwrite [of k v obj] by (metis set_map)
  ultimately show ?thesis
    using assms Some by (auto simp add: js_set_def define_own_def has_key_def)
qed

lemma bind_params_positional:
  assumes "distinct ks" and "''__proto__'' \<notin> set ks" and "length cs = length ks"
  shows "\<exists>ps. bind_params ps0 ks cs = Some ps
            \<and> (\<forall>k. k \<notin> set ks \<longrightarrow> map_of ps k = map_of ps0 k)
            \<and> list_all2 (\<lambda>k c. map_of ps k = Some (capture_value c)) ks cs
            \<and> fst ` set ps = fst ` set ps0 \<union> set ks"
  using assms
proof (induction ks arbitrary: cs ps0)
  case Nil
  then show ?case by simp
next
  case (Cons k ks)
  from Cons.prems obtain c cs' where cs: "cs = c # cs'" and len: "length cs' = length ks"
    by (cases cs) auto
  from Cons.prems have d: "distinct ks" "k \<notin> set ks" and np: "''__proto__'' \<notin> set ks"
    and kp: "k \<noteq> ''__proto__''" by auto
  let ?ps1 = "js_set ps0 k (capture_value c)"
  from Cons.IH [OF d(1) np len, of ?ps1] obtain ps where
    b: "bind_params ?ps1 ks cs' = Some ps"
    and keep: "\<forall>k'. k' \<notin> set ks \<longrightarrow> map_of ps k' = map_of ?ps1 k'"
    and pos: "list_all2 (\<lambda>k c. map_of ps k = Some (capture_value c)) ks cs'"
    and ky: "fst ` set ps = fst ` set ?ps1 \<union> set ks"
    by blast
  from keep d(2) kp have hd: "map_of ps k = Some (capture_value c)"
    by (simp add: map_of_js_set)
  from keep kp have rest: "\<forall>k'. k' \<notin> set (k # ks) \<longrightarrow> map_of ps k' = map_of ps0 k'"
    by (simp add: map_of_js_set)
  from ky kp have "fst ` set ps = fst ` set ps0 \<union> set (k # ks)"
    by (simp add: keys_js_set)
  with b hd rest pos cs show ?case by simp
qed

lemma route_found_params:
  assumes "history r \<noteq> None" and "length caps = length (keys cr)"
    and "distinct (keys cr)" and "''__proto__'' \<notin> set (keys cr)"
  shows "\<exists>ps. map_option params (matched_route (route_found r cr caps pth)) = Some ps
            \<and> fst ` set ps = set (keys cr)
            \<and> bound_positionally ps (keys cr) caps"
proof -
  from bind_params_positional [OF assms(3,4,2), of "[]"] obtain ps where
    b: "bind_params [] (keys cr) caps = Some ps"
    and pos: "list_all2 (\<lambda>k c. map_of ps k = Some (capture_value c)) (keys cr) caps"
    and ky: "fst ` set ps = set (keys cr)"
    by auto
  from pos have "bound_positionally ps (keys cr) caps"
    unfolding bound_positionally_def
    by (rule list_all2_mono) (simp add: js_get_def)
  moreover from assms(1) obtain h where "history r = Some h" by blast
  ultimately show ?thesis
    using b ky by (simp add: route_found_def Let_def)
qed

text \<open>
  C3, as amended. Let the route registered at position \<open>i\<close> be the first that
  matches the path, let the matcher yield one capture for each declared key (as
  \<open>path-to-regexp\<close> does for a pattern string), let the declared key names be
  pairwise distinct and none of them \<open>__proto__\<close>, and let the router have a
  history. Then \<open>_match\<close> returns a route whose \<open>params\<close> has exactly the declared
  keys, the i-th key bound to the i-th capture.
\<close>

theorem C3_params_keyed_positionally:
  assumes "i < length (routeData r)"
    and "regexp (routeData r ! i) pth = Some caps"
    and "none_match (take i (routeData r)) pth"
    and "history r \<noteq> None"
    and "length caps = length (keys (routeData r ! i))"
    and "distinct (keys (routeData r ! i))"
    and "''__proto__'' \<notin> set (keys (routeData r ! i))"
  shows "\<exists>ps. map_option params (matched_route (Router_match r (Val pth))) = Some ps
            \<and> fst ` set ps = set (keys (routeData r ! i))
            \<and> bound_positionally ps (keys (routeData r ! i)) caps"
  using match_loop_first [OF assms(1,2,3), of r] route_found_params [OF assms(4,5,6,7), of pth]
  by (simp add: Router_match_def)

theorem C3_params_keyed_positionally_witness:
  "(1::nat) < length (routeData example_router)
   \<and> regexp (routeData example_router ! 1) ''/users/42'' = Some [Some ''42'']
   \<and> none_match (take 1 (routeData example_router)) ''/users/42''
   \<and> history example_router \<noteq> None
   \<and> keys (routeData example_router ! 1) = [''id'']
   \<and> map_option params (matched_route (Router_match example_router (Val ''/users/42'')))
       = Some [(''id'', JStr ''42'')]
   \<and> bound_positionally [(''id'', JStr ''42'')] [''id''] [Some ''42'']"
  using C3_params_keyed_positionally [of 1 example_router "''/users/42''" "[Some ''42'']"]
  by (simp add: example_router_eq example_routes_def example_pathToRegexp_def none_match_def
        Router_match_def route_found_def Let_def obj_defs bound_positionally_def)

text \<open>
  C3 as the specification states it, for every pattern, fails on the pattern
  \<open>/:id/:id\<close>: its declared keys are \<open>id, id\<close>, the path \<open>/1/2\<close> yields the
  captures \<open>1, 2\<close>, and the second assignment to \<open>params.id\<close> overwrites the
  first, so the first declared key is bound to the second capture.
\<close>

theorem C3_duplicate_key_counterexample:
  "keys (routeData pair_router ! 0) = [''id'', ''id'']
   \<and> regexp (routeData pair_router ! 0) ''/1/2'' = Some [Some ''1'', Some ''2'']
   \<and> map_option params (matched_route (Router_match pair_router (Val ''/1/2'')))
       = Some [(''id'', JStr ''2'')]
   \<and> \<not> bound_positionally [(''id'', JStr ''2'')] [''id'', ''id''] [Some ''1'', Some ''2'']"
  by (simp add: pair_router_simps example_pathToRegexp_def Router_match_def route_found_def
        obj_defs bound_positionally_def Let_def)

subsection \<open>What resolution leaves behind\<close>

lemma path_by_name_cases:
  "path_by_name r nm = Raise TypeError r \<or> (\<exists>p. path_by_name r nm = Return (Val p) r)"
  by (simp add: path_by_name_def Router_matchRouteByName_def split: option.splits)

lemma cleanPath_Val: "\<exists>c. Router_cleanPath r (Val p) = (Val c, r)"
  by (simp add: Router_cleanPath_def Let_def)

lemma route_found_cases:
  "route_found r cr caps pth = Raise TypeError r
   \<or> (\<exists>m obj. route_found r cr caps pth = Return (Val m) (r\<lparr>heap := heap r @ [obj]\<rparr>)
        \<and> m_route m = length (heap r))"
proof (cases "bind_params [] (keys cr) caps")
  case None
  then show ?thesis by (simp add: route_found_def)
next
  case (Some ps)
  show ?thesis
  proof (cases "history r")
    case None
    with Some show ?thesis by (simp add: route_found_def)
  next
    case (Some h)
    with \<open>bind_params [] (keys cr) caps = Some ps\<close> show ?thesis
      unfolding route_found_def Let_def by (intro disjI2 exI conjI) (simp, simp)
  qed
qed

lemma match_loop_cases:
  "match_loop r rds pth = Raise TypeError r \<or> match_loop r rds pth = Return Null r
   \<or> (\<exists>m obj. match_loop r rds pth = Return (Val m) (r\<lparr>heap := heap r @ [obj]\<rparr>)
        \<and> m_route m = length (heap r))"
proof (induction rds)
  case Nil
  then show ?case by simp
next
  case (Cons cr rds)
  show ?case
  proof (cases "regexp cr pth")
    case None
    with Cons show ?thesis by simp
  next
    case (Some caps)
    with route_found_cases [of r cr caps pth] show ?thesis
      by auto
  qed
qed

text \<open>
  A successful resolution changes nothing in the router but the store, where the one
  new route object has been appended.
\<close>

lemma resolve_route_success:
  assumes "resolve_route r arg = Return (Inr (m, c)) r5"
  shows "m_route m = length (heap r) \<and> (\<exists>obj. r5 = r\<lparr>heap := heap r @ [obj]\<rparr>)"
proof -
  define start where
    "start = (case arg_name arg of
                None \<Rightarrow> Return (arg_path arg) r
              | Some nm \<Rightarrow> path_by_name r nm)"
  have "(\<exists>e. start = Raise e r) \<or> (\<exists>p. start = Return p r)"
    using path_by_name_cases [of r] by (auto simp add: start_def split: option.splits)
  then obtain p where st: "start = Return p r"
    using assms by (auto simp add: resolve_route_def start_def [symmetric])
  from assms st obtain pth where p: "p = Val pth"
    by (cases p)
       (auto simp add: resolve_route_def start_def [symmetric] Router_cleanPath_def
          Router_match_def)
  obtain cl where cl: "Router_cleanPath r (Val pth) = (Val cl, r)"
    using cleanPath_Val by blast
  from match_loop_cases [of r "routeData r" cl] assms st p cl
  show ?thesis
    by (auto simp add: resolve_route_def start_def [symmetric] Router_match_def Let_def
          merge_route_params_def merge_query_hash_def split: option.splits)
qed

lemma resolve_route_exits:
  assumes "resolve_route r arg = Return (Inl ex) r5"
  shows "ex = NoPath \<or> ex = NoMatch"
  using assms
  by (auto simp add: resolve_route_def Let_def
        split: outcome.splits nullable.splits prod.splits if_splits)

subsection \<open>Route equality against no current route\<close>

text \<open>
  C10. With \<open>null\<close> as the current route the equality test answers \<open>false\<close> for
  every new route, and so a \<open>navigate\<close> made while \<open>currentRoute\<close> is \<open>null\<close>
  never returns through the same-route short-circuit.
\<close>

theorem C10_null_current_route_never_equal:
  "Router_isRouteEqual r None new = (False, r)
   \<and> (currentRoute r = None
        \<longrightarrow> returned (Router_navigate_sync r arg) \<noteq> Some (Inl SameRoute))"
proof -
  have "returned (Router_navigate_sync r arg) \<noteq> Some (Inl SameRoute)"
    if cur: "currentRoute r = None"
  proof (cases "resolve_route r arg")
    case (Raise e r5)
    then show ?thesis by (simp add: Router_navigate_sync_def)
  next
    case (Return x r5)
    show ?thesis
    proof (cases x)
      case (Inl ex)
      with Return resolve_route_exits [of r arg ex r5] show ?thesis
        by (auto simp add: Router_navigate_sync_def)
    next
      case (Inr mc)
      obtain m c where mc: "mc = (m, c)" by (cases mc)
      from resolve_route_success [of r arg m c r5] Return Inr mc cur
      have "currentRoute r5 = None" by auto
      with Return Inr mc show ?thesis
        by (simp add: Router_navigate_sync_def Router_isRouteEqual_def
              split: prod.splits)
    qed
  qed
  then show ?thesis by (simp add: Router_isRouteEqual_def)
qed

theorem C10_null_current_route_witness:
  "currentRoute example_router = None
   \<and> returned (Router_navigate_sync example_router (PathString ''/'')) \<noteq> Some (Inl SameRoute)
   \<and> returned (Router_navigate example_router (PathString ''/'')) = Some Settled"
  using C10_null_current_route_never_equal [of example_router "Some 0" "PathString ''/''"]
  by (simp add: example_defs nav_defs str_defs obj_defs action_defs Let_def)

subsection \<open>Steps that only allocate and notify\<close>

lemma only_eventsI:
  "r' = r\<lparr>heap := heap r @ hs, events := events r @ es\<rparr> \<Longrightarrow> list_all P es
   \<Longrightarrow> only_events P r r'"
  unfolding only_events_def by blast

lemma only_events_refl: "only_events P r r"
  by (rule only_eventsI [where hs = "[]" and es = "[]"]) simp_all

lemma only_events_emit:
  assumes "only_events P r r'" and "P e"
  shows "only_events P r (emit e r')"
proof -
  from assms(1) obtain hs es where
    r': "r' = r\<lparr>heap := heap r @ hs, events := events r @ es\<rparr>" and a: "list_all P es"
    unfolding only_events_def by blast
  show ?thesis
    by (rule only_eventsI [where hs = hs and es = "es @ [e]"]) (simp_all add: r' emit_def a assms(2))
qed

lemma only_events_alloc:
  assumes "only_events P r r'"
  shows "only_events P r (r'\<lparr>heap := heap r' @ [obj]\<rparr>)"
proof -
  from assms(1) obtain hs es where
    r': "r' = r\<lparr>heap := heap r @ hs, events := events r @ es\<rparr>" and a: "list_all P es"
    unfolding only_events_def by blast
  show ?thesis
    by (rule only_eventsI [where hs = "hs @ [obj]" and es = es]) (simp_all add: r' a)
qed

lemma only_events_heap_update:
  assumes "only_events P r r'" and "length (heap r) \<le> a"
  shows "only_events P r (r'\<lparr>heap := (heap r')[a := x]\<rparr>)"
proof -
  from assms(1) obtain hs es where
    r': "r' = r\<lparr>heap := heap r @ hs, events := events r @ es\<rparr>" and a: "list_all P es"
    unfolding only_events_def by blast
  have "(heap r @ hs)[a := x] = heap r @ hs[a - length (heap r) := x]"
    using assms(2) by (simp add: list_update_append)
  then show ?thesis
    by (intro only_eventsI [where hs = "hs[a - length (heap r) := x]" and es = es])
       (simp_all add: r' a)
qed

lemma only_events_trans:
  assumes "only_events P r r'" and "only_events P r' r''"
  shows "only_events P r r''"
proof -
  from assms(1) obtain hs es where
    r': "r' = r\<lparr>heap := heap r @ hs, events := events r @ es\<rparr>" and a: "list_all P es"
    unfolding only_events_def by blast
  from assms(2) obtain hs' es' where
    r'': "r'' = r'\<lparr>heap := heap r' @ hs', events := events r' @ es'\<rparr>" and a': "list_all P es'"
    unfolding only_events_def by blast
  show ?thesis
    by (rule only_eventsI [where hs = "hs @ hs'" and es = "es @ es'"]) (simp_all add: r' r'' a a')
qed

lemma only_events_mono:
  assumes "only_events P r r'" and "\<And>e. P e \<Longrightarrow> Q e"
  shows "only_events Q r r'"
  using assms unfolding only_events_def list_all_iff by blast

lemma only_events_fields:
  assumes "only_events P r r'"
  shows "currentRoute r' = currentRoute r" "lastRoute r' = lastRoute r"
    "history r' = history r" "action r' = action r" "debugMode r' = debugMode r"
    "pageInstance r' = pageInstance r" "isFirstRoute r' = isFirstRoute r"
    "unlisten r' = unlisten r" "beforeEach r' = beforeEach r" "afterEach r' = afterEach r"
    "mode r' = mode r" "localeName r' = localeName r"
    "take (length (heap r)) (heap r') = heap r"
    "take (length (events r)) (events r') = events r"
    "list_all P (drop (length (events r)) (events r'))"
  using assms unfolding only_events_def by auto

lemma only_events_filter:
  assumes "only_events P r r'" and "\<And>e. P e \<Longrightarrow> \<not> Q e"
  shows "filter Q (events r') = filter Q (events r)"
proof -
  from assms(1) obtain hs es where
    r': "r' = r\<lparr>heap := heap r @ hs, events := events r @ es\<rparr>" and a: "list_all P es"
    unfolding only_events_def by blast
  from a assms(2) have "filter Q es = []"
    by (auto simp add: list_all_iff filter_empty_conv)
  with r' show ?thesis by simp
qed

lemma path_by_name_state: "state_of (path_by_name r nm) = r"
  using path_by_name_cases [of r nm] by auto

lemma match_only_events: "only_events is_console r (state_of (Router_match r p))"
proof (cases p)
  case (Val pth)
  from match_loop_cases [of r "routeData r" pth] Val show ?thesis
    by (auto simp add: Router_match_def only_events_refl only_events_alloc [OF only_events_refl])
qed (simp_all add: Router_match_def only_events_emit only_events_refl)

lemma cleanPath_only_events: "only_events is_console r (snd (Router_cleanPath r p))"
  by (cases p) (simp_all add: Router_cleanPath_def Let_def only_events_emit only_events_refl)

lemma resolve_only_events: "only_events is_console r (state_of (resolve_route r arg))"
proof -
  define start where
    "start = (case arg_name arg of
                None \<Rightarrow> Return (arg_path arg) r
              | Some nm \<Rightarrow> path_by_name r nm)"
  have st: "state_of start = r"
    by (simp add: start_def path_by_name_state split: option.splits)
  show ?thesis
  proof (cases start)
    case (Raise e r1)
    with st show ?thesis
      by (simp add: resolve_route_def start_def [symmetric] only_events_refl)
  next
    case (Return p r1)
    with st have r1: "r1 = r" by simp
    show ?thesis
    proof (cases "p = Null")
      case True
      with Return r1 show ?thesis
        by (simp add: resolve_route_def start_def [symmetric] only_events_emit only_events_refl)
    next
      case False
      obtain cleaned r2 where cp: "Router_cleanPath r p = (cleaned, r2)"
        by (cases "Router_cleanPath r p")
      with cleanPath_only_events [of r p] have o2: "only_events is_console r r2" by simp
      have o3: "only_events is_console r (state_of (Router_match r2 cleaned))"
        using o2 match_only_events [of r2 cleaned] by (rule only_events_trans)
      show ?thesis
      proof (cases "Router_match r2 cleaned")
        case (Raise e r3)
        with o3 Return r1 False cp show ?thesis
          by (simp add: resolve_route_def start_def [symmetric])
      next
        case rt: (Return x r3)
        show ?thesis
        proof (cases x)
          case Undefined
          with rt o3 Return r1 False cp show ?thesis
            by (simp add: resolve_route_def start_def [symmetric])
        next
          case Null
          with rt o3 Return r1 False cp show ?thesis
            by (simp add: resolve_route_def start_def [symmetric] only_events_emit)
        next
          case (Val m)
          with rt Return r1 False cp obtain c r5 where
            "resolve_route r arg = Return (Inr (m, c)) r5"
            by (simp add: resolve_route_def start_def [symmetric] Let_def)
          with resolve_route_success [of r arg m c r5] show ?thesis
            by (auto simp add: only_events_alloc [OF only_events_refl])
        qed
      qed
    qed
  qed
qed

lemma isRouteEqual_only_events:
  "only_events is_console r (snd (Router_isRouteEqual r cur new))"
  by (simp add: Router_isRouteEqual_def only_events_emit only_events_refl
        split: option.splits)

lemma before_executor_only_events:
  "only_events is_before_event r (snd (before_executor r a))"
  by (simp add: before_executor_def Let_def only_events_emit only_events_refl
        split: hook_slot.splits option.splits)

lemma console_is_before: "is_console e \<Longrightarrow> is_before_event e"
  by (cases e) simp_all

lemma sync_only_events:
  "only_events is_before_event r (state_of (Router_navigate_sync r arg))"
proof -
  have o5: "only_events is_before_event r (state_of (resolve_route r arg))"
    using resolve_only_events console_is_before by (rule only_events_mono)
  show ?thesis
  proof (cases "resolve_route r arg")
    case (Raise e r5)
    with o5 show ?thesis by (simp add: Router_navigate_sync_def)
  next
    case (Return x r5)
    show ?thesis
    proof (cases x)
      case (Inl ex)
      with Return o5 show ?thesis by (simp add: Router_navigate_sync_def)
    next
      case (Inr mc)
      obtain m c where mc: "mc = (m, c)" by (cases mc)
      obtain b r6 where eq: "Router_isRouteEqual r5 (currentRoute r5) (Some (m_route m)) = (b, r6)"
        by (cases "Router_isRouteEqual r5 (currentRoute r5) (Some (m_route m))")
      have "only_events is_before_event r5 r6"
        using isRouteEqual_only_events [of r5 "currentRoute r5" "Some (m_route m)"] eq
          console_is_before by (auto intro: only_events_mono)
      with o5 Return have o6: "only_events is_before_event r r6"
        by (auto intro: only_events_trans)
      obtain answer r7 where be: "before_executor r6 (m_route m) = (answer, r7)"
        by (cases "before_executor r6 (m_route m)")
      with before_executor_only_events [of r6 "m_route m"] o6
      have o7: "only_events is_before_event r r7"
        by (auto intro: only_events_trans)
      from Return Inr mc eq be o6 o7 show ?thesis
        by (cases b) (simp_all add: Router_navigate_sync_def only_events_emit)
    qed
  qed
qed

subsection \<open>The steps of a navigation\<close>

lemma history_transition_refused:
  assumes "history r = Some h" and "history_accepts h lo = Inl e"
  shows "history_transition r ev lo = Raise e (emit ev r)"
  using assms by (simp add: history_transition_def)

lemma history_transition_accepted:
  assumes "history r = Some h" and "history_accepts h lo = Inr loc"
  shows "\<exists>r2. history_transition r ev lo = Return () r2
           \<and> heap r2 = heap r \<and> currentRoute r2 = currentRoute r
           \<and> lastRoute r2 = lastRoute r \<and> afterEach r2 = afterEach r
           \<and> history r2 = Some (h\<lparr>location := loc\<rparr>)
           \<and> history_events r2 = history_events r @ (if is_history_event ev then [ev] else [])
           \<and> after_hook_events r2
               = after_hook_events r @ (if is_after_hook_event ev then [ev] else [])"
  using assms
  by (simp add: history_transition_def Router_dispatchRouteChange_def emit_def Let_def
        history_events_def after_hook_events_def)

lemma commit_refused:
  assumes "history r = Some h" and "history_accepts h lo = Inl e"
  shows "(if silent then history_replace (r\<lparr>action := REPLACE_ACTION\<rparr>) lo
          else history_push (r\<lparr>action := PUSH_ACTION\<rparr>) lo)
         = Raise e (emit (if silent then HistoryReplace lo else HistoryPush lo)
                      (r\<lparr>action := (if silent then REPLACE_ACTION else PUSH_ACTION)\<rparr>))"
proof (cases silent)
  case True
  with history_transition_refused [of "r\<lparr>action := REPLACE_ACTION\<rparr>" h lo e "HistoryReplace lo"]
    assms
  show ?thesis by (simp add: history_replace_def)
next
  case False
  with history_transition_refused [of "r\<lparr>action := PUSH_ACTION\<rparr>" h lo e "HistoryPush lo"]
    assms
  show ?thesis by (simp add: history_push_def)
qed

lemma commit_accepted:
  assumes "history r = Some h" and "history_accepts h lo = Inr loc"
  shows "\<exists>r2. (if silent then history_replace (r\<lparr>action := REPLACE_ACTION\<rparr>) lo
               else history_push (r\<lparr>action := PUSH_ACTION\<rparr>) lo) = Return () r2
           \<and> heap r2 = heap r \<and> currentRoute r2 = currentRoute r
           \<and> lastRoute r2 = lastRoute r \<and> afterEach r2 = afterEach r
           \<and> history r2 = Some (h\<lparr>location := loc\<rparr>)
           \<and> history_events r2
               = history_events r @ [if silent then HistoryReplace lo else HistoryPush lo]
           \<and> after_hook_events r2 = after_hook_events r"
proof (cases silent)
  case True
  with history_transition_accepted
         [of "r\<lparr>action := REPLACE_ACTION\<rparr>" h lo loc "HistoryReplace lo"] assms
  show ?thesis by (simp add: history_replace_def history_events_def after_hook_events_def)
next
  case False
  with history_transition_accepted
         [of "r\<lparr>action := PUSH_ACTION\<rparr>" h lo loc "HistoryPush lo"] assms
  show ?thesis by (simp add: history_push_def history_events_def after_hook_events_def)
qed

lemma instantiate_some:
  assumes "currentRoute r = Some cur"
  shows "\<exists>r3. instantiate_component r cpt = Return () r3
           \<and> heap r3 = attach_instance (heap r) cur cpt \<and> currentRoute r3 = currentRoute r
           \<and> lastRoute r3 = lastRoute r \<and> afterEach r3 = afterEach r
           \<and> history r3 = history r
           \<and> history_events r3 = history_events r
           \<and> after_hook_events r3 = after_hook_events r"
  using assms
  by (simp add: instantiate_component_def attach_instance_def emit_def history_events_def
        after_hook_events_def split: option.splits component.splits)

lemma after_executor_state:
  "heap (snd (after_executor r)) = heap r"
  "currentRoute (snd (after_executor r)) = currentRoute r"
  "lastRoute (snd (after_executor r)) = lastRoute r"
  "history (snd (after_executor r)) = history r"
  "history_events (snd (after_executor r)) = history_events r"
  "after_hook_events (snd (after_executor r))
     = after_hook_events r
       @ (if afterEach r = NotAFunction then []
          else [AfterEachCall (lastRoute r) (currentRoute r)
                  (map_option (\<lambda>c. heap r ! c) (currentRoute r)),
                AfterEachDispatch (lastRoute r) (currentRoute r)
                  (map_option (\<lambda>c. heap r ! c) (currentRoute r))])"
  by (simp_all add: after_executor_def emit_def Let_def history_events_def
        after_hook_events_def split: hook_slot.splits)

lemma before_then_refused:
  assumes "history r1 = Some h" and "proceeds (p_resolved p)"
    and "history_accepts h (commit_location p) = Inl e"
  shows "Router_before_then r1 p =
           (Inl (BeforeRejected e),
            emit (ConsoleLog ''Router.hooks'')
              (emit (if p_silent p then HistoryReplace (commit_location p)
                     else HistoryPush (commit_location p))
                 (r1\<lparr>currentRoute := Some (p_newRoute p),
                     action := (if p_silent p then REPLACE_ACTION else PUSH_ACTION)\<rparr>)))"
proof -
  let ?r = "r1\<lparr>currentRoute := Some (p_newRoute p)\<rparr>"
  have h: "history ?r = Some h" using assms(1) by simp
  from assms(2) obtain v where v: "p_resolved p = Some v"
    "truthy (if v = JUndefined then JBool True else v)"
    by (cases "p_resolved p") (auto simp add: proceeds_def)
  from v commit_refused [OF h assms(3), of "p_silent p"] show ?thesis
    by (cases "p_silent p") (simp_all add: Router_before_then_def commit_location_def Let_def)
qed

lemma before_then_proceeds:
  assumes "history r1 = Some h" and "proceeds (p_resolved p)"
    and "history_accepts h (commit_location p) = Inr loc"
  shows "\<exists>ap r4. Router_before_then r1 p = (Inr ap, r4)
           \<and> heap r4 = attach_instance (heap r1) (p_newRoute p) (p_component p)
           \<and> currentRoute r4 = Some (p_newRoute p)
           \<and> lastRoute r4 = lastRoute r1
           \<and> history r4 = Some (h\<lparr>location := loc\<rparr>)
           \<and> history_events r4
               = history_events r1
                 @ [if p_silent p then HistoryReplace (commit_location p)
                    else HistoryPush (commit_location p)]
           \<and> after_hook_events r4
               = after_hook_events r1
                 @ (if afterEach r1 = NotAFunction then []
                    else [AfterEachCall (lastRoute r1) (Some (p_newRoute p))
                            (Some (heap r4 ! p_newRoute p)),
                          AfterEachDispatch (lastRoute r1) (Some (p_newRoute p))
                            (Some (heap r4 ! p_newRoute p))])"
proof -
  let ?r = "r1\<lparr>currentRoute := Some (p_newRoute p)\<rparr>"
  have h: "history ?r = Some h" using assms(1) by simp
  from assms(2) obtain v where v: "p_resolved p = Some v"
    "truthy (if v = JUndefined then JBool True else v)"
    by (cases "p_resolved p") (auto simp add: proceeds_def)
  from commit_accepted [OF h assms(3), of "p_silent p"] obtain r2 where
    c: "(if p_silent p then history_replace (?r\<lparr>action := REPLACE_ACTION\<rparr>) (commit_location p)
         else history_push (?r\<lparr>action := PUSH_ACTION\<rparr>) (commit_location p)) = Return () r2"
    and r2: "heap r2 = heap r1" "currentRoute r2 = Some (p_newRoute p)"
      "lastRoute r2 = lastRoute r1" "afterEach r2 = afterEach r1"
      "history r2 = Some (h\<lparr>location := loc\<rparr>)"
      "history_events r2
         = history_events r1 @ [if p_silent p then HistoryReplace (commit_location p)
                                else HistoryPush (commit_location p)]"
      "after_hook_events r2 = after_hook_events r1"
    by (auto simp add: history_events_def after_hook_events_def)
  from instantiate_some [OF r2(2), of "p_component p"] obtain r3 where
    i: "instantiate_component r2 (p_component p) = Return () r3"
    and r3: "heap r3 = attach_instance (heap r2) (p_newRoute p) (p_component p)"
      "currentRoute r3 = currentRoute r2" "lastRoute r3 = lastRoute r2"
      "afterEach r3 = afterEach r2" "history r3 = history r2"
      "history_events r3 = history_events r2" "after_hook_events r3 = after_hook_events r2"
    by blast
  obtain answer r4 where a: "after_executor r3 = (answer, r4)"
    by (cases "after_executor r3")
  with after_executor_state [of r3] have r4: "heap r4 = heap r3"
    "currentRoute r4 = currentRoute r3" "lastRoute r4 = lastRoute r3"
    "history r4 = history r3" "history_events r4 = history_events r3"
    "after_hook_events r4
     = after_hook_events r3
       @ (if afterEach r3 = NotAFunction then []
          else [AfterEachCall (lastRoute r3) (currentRoute r3)
                  (map_option (\<lambda>c. heap r3 ! c) (currentRoute r3)),
                AfterEachDispatch (lastRoute r3) (currentRoute r3)
                  (map_option (\<lambda>c. heap r3 ! c) (currentRoute r3))])"
    by simp_all
  from v c i a have "Router_before_then r1 p =
      (Inr \<lparr>ap_newRoute = p_newRoute p, ap_callback = p_callback p,
            ap_component = p_component p, ap_resolved = answer\<rparr>, r4)"
    by (cases "p_silent p") (simp_all add: Router_before_then_def commit_location_def Let_def)
  with r2 r3 r4 show ?thesis by simp
qed

lemma before_then_stops:
  assumes "\<not> proceeds (p_resolved p)"
  shows "\<exists>res. fst (Router_before_then r1 p) = Inl res
           \<and> (res = BeforeStalled \<or> res = BeforeCancelled)
           \<and> only_events is_console r1 (snd (Router_before_then r1 p))"
  using assms
  by (auto simp add: Router_before_then_def proceeds_def only_events_refl only_events_emit
        split: option.splits)

lemma mount_component_state:
  "heap (state_of (mount_component r cpt)) = heap r"
  "history (state_of (mount_component r cpt)) = history r"
  "history_events (state_of (mount_component r cpt)) = history_events r"
  "after_hook_events (state_of (mount_component r cpt)) = after_hook_events r"
  by (simp_all add: mount_component_def emit_def Let_def history_events_def
        after_hook_events_def split: option.splits)

lemma after_then_state:
  "heap (snd (Router_after_then r ap)) = heap r"
  "history (snd (Router_after_then r ap)) = history r"
  "history_events (snd (Router_after_then r ap)) = history_events r"
  "after_hook_events (snd (Router_after_then r ap)) = after_hook_events r"
  "past_commit (Some (fst (Router_after_then r ap)))"
proof -
  define r1 where "r1 = (case ap_callback ap of
                         Some f \<Rightarrow> emit (CallbackCall f (currentRoute r)) r
                       | None \<Rightarrow> r)"
  have r1: "heap r1 = heap r" "history r1 = history r" "history_events r1 = history_events r"
    "after_hook_events r1 = after_hook_events r"
    by (simp_all add: r1_def emit_def history_events_def after_hook_events_def
          split: option.splits)
  show "heap (snd (Router_after_then r ap)) = heap r"
    "history (snd (Router_after_then r ap)) = history r"
    "history_events (snd (Router_after_then r ap)) = history_events r"
    "after_hook_events (snd (Router_after_then r ap)) = after_hook_events r"
    "past_commit (Some (fst (Router_after_then r ap)))"
    using mount_component_state [of r1 "ap_component ap"] r1
    by (auto simp add: Router_after_then_def r1_def [symmetric] emit_def Let_def
          history_events_def after_hook_events_def split: option.splits outcome.splits)
qed

lemma route_found_history:
  "route_found r cr caps pth = Return x r' \<Longrightarrow> history r \<noteq> None"
  by (auto simp add: route_found_def Let_def split: option.splits)

lemma match_loop_history:
  "match_loop r rds pth = Return (Val m) r' \<Longrightarrow> history r \<noteq> None"
proof (induction rds)
  case Nil
  then show ?case by simp
next
  case (Cons cr rds)
  then show ?case
    by (cases "regexp cr pth") (auto dest: route_found_history)
qed

text \<open>
  A successful resolution: the object that \<open>_match\<close> created for the cleaned path
  is the one new object of the store, and the two merges have written into it.
\<close>

lemma resolve_route_object:
  assumes "resolve_route r arg = Return (Inr (m, c)) r5"
  shows "history r \<noteq> None \<and> m_route m = length (heap r)
       \<and> (\<exists>ob. matched_route (Router_match r (Val c)) = Some ob
                \<and> r5 = r\<lparr>heap := heap r @ [merged_route arg ob]\<rparr>)"
proof -
  define start where
    "start = (case arg_name arg of
                None \<Rightarrow> Return (arg_path arg) r
              | Some nm \<Rightarrow> path_by_name r nm)"
  have "(\<exists>e. start = Raise e r) \<or> (\<exists>p. start = Return p r)"
    using path_by_name_cases [of r] by (auto simp add: start_def split: option.splits)
  then obtain p where st: "start = Return p r"
    using assms by (auto simp add: resolve_route_def start_def [symmetric])
  from assms st obtain pth where p: "p = Val pth"
    by (cases p)
       (auto simp add: resolve_route_def start_def [symmetric] Router_cleanPath_def
          Router_match_def)
  obtain cl where cl: "Router_cleanPath r (Val pth) = (Val cl, r)"
    using cleanPath_Val by blast
  from assms st p cl have c: "c = cl"
    by (auto simp add: resolve_route_def start_def [symmetric] Let_def
          split: outcome.splits nullable.splits)
  from assms st p cl obtain m' r3 where ml: "match_loop r (routeData r) cl = Return (Val m') r3"
    by (auto simp add: resolve_route_def start_def [symmetric] Router_match_def Let_def
          split: outcome.splits nullable.splits)
  from match_loop_cases [of r "routeData r" cl] ml obtain ob where
    r3: "r3 = r\<lparr>heap := heap r @ [ob]\<rparr>" and m': "m_route m' = length (heap r)"
    by auto
  from assms st p cl ml have m: "m = m'"
    and r5: "r5 = merge_query_hash (merge_route_params r3 (m_route m') (arg_params arg))
                    (m_route m') (arg_query arg) (arg_hash arg)"
    by (auto simp add: resolve_route_def start_def [symmetric] Router_match_def Let_def)
  from ml r3 m' c have "matched_route (Router_match r (Val c)) = Some ob"
    by (simp add: Router_match_def)
  moreover from r5 r3 m' have "r5 = r\<lparr>heap := heap r @ [merged_route arg ob]\<rparr>"
    by (simp add: merge_query_hash_def merge_route_params_def merged_route_def
          split: option.splits)
  moreover from ml have "history r \<noteq> None" by (rule match_loop_history)
  ultimately show ?thesis using m m' by blast
qed

lemma before_executor_call:
  "heap (snd (before_executor r a)) = heap r"
  "before_hook_events (snd (before_executor r a))
     = before_hook_events r
       @ (if beforeEach r = NotAFunction then []
          else [BeforeEachCall (lastRoute r) a (heap r ! a),
                BeforeEachDispatch (lastRoute r) a (heap r ! a)])"
  "fst (before_executor r a)
     = (case beforeEach r of
          NotAFunction \<Rightarrow> Some (JBool True)
        | DefaultHook \<Rightarrow> Some JUndefined
        | UserHook h \<Rightarrow>
            first_answer
              (h (map_option (\<lambda>l. heap r ! l) (lastRoute r)) (Some (heap r ! a))
               # map (\<lambda>g. g (map_option (\<lambda>l. heap r ! l) (lastRoute r)) (Some (heap r ! a)))
                   (beforeEachChanged r)))"
  by (simp_all add: before_executor_def emit_def Let_def before_hook_events_def
        split: hook_slot.splits option.splits)

lemma sync_pending:
  assumes "Router_navigate_sync r arg = Return (Inr p) r1"
  shows "history r1 \<noteq> None" and "p_newRoute p = length (heap r)"
    and "p_silent p = arg_silent arg"
    and "only_events is_before_event r r1"
    and "\<exists>ob. matched_route (Router_match r (Val (p_path p))) = Some ob
              \<and> heap r1 = heap r @ [merged_route arg ob]"
    and "before_hook_events r1
           = before_hook_events r
             @ (if beforeEach r = NotAFunction then []
                else [BeforeEachCall (lastRoute r) (p_newRoute p) (heap r1 ! p_newRoute p),
                      BeforeEachDispatch (lastRoute r) (p_newRoute p) (heap r1 ! p_newRoute p)])"
    and "p_resolved p
           = (case beforeEach r of
                NotAFunction \<Rightarrow> Some (JBool True)
              | DefaultHook \<Rightarrow> Some JUndefined
              | UserHook h \<Rightarrow>
                  first_answer
                    (h (map_option (\<lambda>l. heap r1 ! l) (lastRoute r))
                       (Some (heap r1 ! p_newRoute p))
                     # map (\<lambda>g. g (map_option (\<lambda>l. heap r1 ! l) (lastRoute r))
                                  (Some (heap r1 ! p_newRoute p)))
                         (beforeEachChanged r)))"
proof -
  show oe: "only_events is_before_event r r1"
    using sync_only_events [of r arg] assms by simp
  from assms obtain m c r5 where res: "resolve_route r arg = Return (Inr (m, c)) r5"
    by (cases "resolve_route r arg")
       (auto simp add: Router_navigate_sync_def split: sum.splits)
  from resolve_route_object [OF res] obtain ob where
    hist: "history r \<noteq> None" and mr: "m_route m = length (heap r)"
    and ob: "matched_route (Router_match r (Val c)) = Some ob"
    and r5: "r5 = r\<lparr>heap := heap r @ [merged_route arg ob]\<rparr>"
    by blast
  from hist only_events_fields(3) [OF oe]
  show "history r1 \<noteq> None" by simp
  obtain b r6 where eq: "Router_isRouteEqual r5 (currentRoute r5) (Some (m_route m)) = (b, r6)"
    by (cases "Router_isRouteEqual r5 (currentRoute r5) (Some (m_route m))")
  from eq assms res have b: "\<not> b" by (auto simp add: Router_navigate_sync_def)
  with eq have r6: "r6 = r5"
    by (auto simp add: Router_isRouteEqual_def split: option.splits if_splits)
  obtain answer r7 where be: "before_executor r5 (m_route m) = (answer, r7)"
    by (cases "before_executor r5 (m_route m)")
  from assms res eq b r6 be have p: "p_newRoute p = m_route m" "p_silent p = arg_silent arg"
    "p_path p = c" "p_resolved p = answer"
    and r1: "r1 = r7"
    by (auto simp add: Router_navigate_sync_def split: if_splits)
  from p mr show "p_newRoute p = length (heap r)" by simp
  from p show "p_silent p = arg_silent arg" by simp
  from before_executor_call(1) [of r5 "m_route m"] be r1 r5
  have h1: "heap r1 = heap r @ [merged_route arg ob]" by simp
  with ob p show "\<exists>ob. matched_route (Router_match r (Val (p_path p))) = Some ob
              \<and> heap r1 = heap r @ [merged_route arg ob]" by simp
  from r5 h1 have h5: "heap r5 = heap r1" by simp
  from r5 have f5: "beforeEach r5 = beforeEach r" "lastRoute r5 = lastRoute r"
    "beforeEachChanged r5 = beforeEachChanged r" "before_hook_events r5 = before_hook_events r"
    by (simp_all add: before_hook_events_def)
  from before_executor_call(2) [of r5 "m_route m"] be r1 h5 f5 p(1)
  show "before_hook_events r1
           = before_hook_events r
             @ (if beforeEach r = NotAFunction then []
                else [BeforeEachCall (lastRoute r) (p_newRoute p) (heap r1 ! p_newRoute p),
                      BeforeEachDispatch (lastRoute r) (p_newRoute p) (heap r1 ! p_newRoute p)])"
    by simp
  from before_executor_call(3) [of r5 "m_route m"] be h5 f5 p(1,4)
  show "p_resolved p
           = (case beforeEach r of
                NotAFunction \<Rightarrow> Some (JBool True)
              | DefaultHook \<Rightarrow> Some JUndefined
              | UserHook h \<Rightarrow>
                  first_answer
                    (h (map_option (\<lambda>l. heap r1 ! l) (lastRoute r))
                       (Some (heap r1 ! p_newRoute p))
                     # map (\<lambda>g. g (map_option (\<lambda>l. heap r1 ! l) (lastRoute r))
                                  (Some (heap r1 ! p_newRoute p)))
                         (beforeEachChanged r)))"
    by (cases "beforeEach r") simp_all
qed



lemma not_after_hook_before: "is_before_event e \<Longrightarrow> \<not> is_after_hook_event e"
  by (cases e) simp_all


lemma not_after_hook_console: "is_console e \<Longrightarrow> \<not> is_after_hook_event e"
  by (cases e) simp_all


lemma sync_after_hook_events:
  "after_hook_events (state_of (Router_navigate_sync r arg)) = after_hook_events r"
  unfolding after_hook_events_def
  using sync_only_events not_after_hook_before by (rule only_events_filter)

lemma navigate_after_pending:
  assumes "Router_navigate_sync r arg = Return (Inr p) r1"
  shows "Router_navigate r arg =
     (case Router_before_then r1 p of
        (Inl res, r2) \<Rightarrow> Return res r2
      | (Inr ap, r2) \<Rightarrow> (case Router_after_then r2 ap of (res, r3) \<Rightarrow> Return res r3))"
  using assms by (simp add: Router_navigate_def)


subsection \<open>Navigating to the current route\<close>

text \<open>
  C2, as amended. Let the request resolve to a route object, let \<open>currentRoute\<close>
  refer to an existing object, and let the two be equal as \<open>_isRouteEqual\<close>
  computes it: the same name and the same \<open>JSON.stringify\<close> text of \<open>params\<close>
  (query and hash play no part). Then \<open>navigate\<close> returns through the same-route
  exit: \<open>currentRoute\<close> (the same reference), \<open>lastRoute\<close>, the history and the
  pending action are unchanged, every object that existed is unchanged, and no event
  happens, other than the log line in debug mode: no hook, no push, no replace.
\<close>

theorem C2_same_route_is_noop:
  assumes "resolved_route (resolve_route r arg) = Some new"
    and "currentRoute r = Some cur" and "cur < length (heap r)"
    and "name (heap r ! cur) = name new"
    and "JSON_stringify (params (heap r ! cur)) = JSON_stringify (params new)"
  shows "returned (Router_navigate r arg) = Some (Exited SameRoute)
       \<and> currentRoute (state_of (Router_navigate r arg)) = currentRoute r
       \<and> lastRoute (state_of (Router_navigate r arg)) = lastRoute r
       \<and> history (state_of (Router_navigate r arg)) = history r
       \<and> action (state_of (Router_navigate r arg)) = action r
       \<and> take (length (heap r)) (heap (state_of (Router_navigate r arg))) = heap r
       \<and> new_events r (state_of (Router_navigate r arg))
           = (if debugMode r then [ConsoleLog ''Router.navigate Cancel because same route'']
              else [])"
proof -
  from assms(1) obtain m c r5 where res: "resolve_route r arg = Return (Inr (m, c)) r5"
    and new: "new = heap r5 ! m_route m"
    by (cases "resolve_route r arg" rule: resolved_route.cases) auto
  from resolve_route_success [OF res] obtain obj where
    mr: "m_route m = length (heap r)" and r5: "r5 = r\<lparr>heap := heap r @ [obj]\<rparr>"
    by blast
  from r5 assms(3) have cur: "heap r5 ! cur = heap r ! cur"
    by (simp add: nth_append)
  from r5 assms(2) have c5: "currentRoute r5 = Some cur" by simp
  from cur c5 new assms(4,5) r5
  have eq: "Router_isRouteEqual r5 (currentRoute r5) (Some (m_route m)) =
              (True, if debugMode r
                     then emit (ConsoleLog ''Router.navigate Cancel because same route'') r5
                     else r5)"
    by (simp add: Router_isRouteEqual_def)
  from res eq have nav: "Router_navigate r arg =
      Return (Exited SameRoute)
        (if debugMode r
         then emit (ConsoleLog ''Router.navigate Cancel because same route'') r5 else r5)"
    by (simp add: Router_navigate_def Router_navigate_sync_def)
  show ?thesis
    by (simp add: nav r5 emit_def new_events_def)
qed

theorem C2_same_route_witness:
  "resolved_route (resolve_route visited_router same_route_request)
     = Some \<lparr>name = ''user'', path = ''/users/42'', params = [(''id'', JStr ''42'')],
             query = Some ''?tab=1'', hash = None, inst = None\<rparr>
   \<and> currentRoute visited_router = Some 0 \<and> 0 < length (heap visited_router)
   \<and> heap visited_router ! 0
       = \<lparr>name = ''user'', path = ''/users/42'', params = [(''id'', JStr ''42'')],
          query = None, hash = None, inst = None\<rparr>
   \<and> returned (Router_navigate visited_router same_route_request) = Some (Exited SameRoute)
   \<and> currentRoute (state_of (Router_navigate visited_router same_route_request)) = Some 0
   \<and> new_events visited_router (state_of (Router_navigate visited_router same_route_request))
       = []"
  using C2_same_route_is_noop [of visited_router same_route_request
      "\<lparr>name = ''user'', path = ''/users/42'', params = [(''id'', JStr ''42'')],
             query = Some ''?tab=1'', hash = None, inst = None\<rparr>" 0]
  by (simp add: visited_router_def same_route_request_def example_defs nav_defs str_defs
        obj_defs action_defs new_events_def Let_def)

text \<open>
  C2 as the specification states it, with deep equality of \<open>params\<close>, fails on the
  code. The current route is \<open>home\<close> with params \<open>{x: '1', y: '2'}\<close>; the request
  resolves to \<open>home\<close> with params \<open>{y: '2', x: '1'}\<close>, deep-equal to them. The
  two \<open>JSON.stringify\<close> texts differ in the order of the keys, so the navigation is
  carried out: the hooks fire, a history entry is pushed and \<open>currentRoute\<close> becomes
  the new object.
\<close>

theorem C2_key_order_counterexample:
  "current_route_object xy_router
     = Some \<lparr>name = ''home'', path = ''/'',
             params = [(''x'', JStr ''1''), (''y'', JStr ''2'')],
             query = None, hash = None, inst = None\<rparr>
   \<and> resolved_route (resolve_route xy_router yx_request)
     = Some \<lparr>name = ''home'', path = ''/'',
             params = [(''y'', JStr ''2''), (''x'', JStr ''1'')],
             query = None, hash = None, inst = None\<rparr>
   \<and> deep_equal [(''x'', JStr ''1''), (''y'', JStr ''2'')] [(''y'', JStr ''2''), (''x'', JStr ''1'')]
   \<and> returned (Router_navigate xy_router yx_request) = Some Settled
   \<and> currentRoute xy_router = Some 0
   \<and> currentRoute (state_of (Router_navigate xy_router yx_request)) = Some 1
   \<and> new_events xy_router (state_of (Router_navigate xy_router yx_request))
       = [BeforeEachCall (Some 0) 1
            \<lparr>name = ''home'', path = ''/'',
             params = [(''y'', JStr ''2''), (''x'', JStr ''1'')],
             query = None, hash = None, inst = None\<rparr>,
          BeforeEachDispatch (Some 0) 1
            \<lparr>name = ''home'', path = ''/'',
             params = [(''y'', JStr ''2''), (''x'', JStr ''1'')],
             query = None, hash = None, inst = None\<rparr>,
          HistoryPush \<lparr>lo_pathname = ''/'', lo_search = None, lo_hash = None, lo_state = 1\<rparr>,
          RouteChangedDispatch (Some 0) (Some 1),
          AfterEachCall (Some 0) (Some 1)
            (Some \<lparr>name = ''home'', path = ''/'',
                   params = [(''y'', JStr ''2''), (''x'', JStr ''1'')],
                   query = None, hash = None, inst = None\<rparr>),
          AfterEachDispatch (Some 0) (Some 1)
            (Some \<lparr>name = ''home'', path = ''/'',
                   params = [(''y'', JStr ''2''), (''x'', JStr ''1'')],
                   query = None, hash = None, inst = None\<rparr>),
          CallbackCall 0 (Some 1), ParseAnchors]"
  by (simp add: xy_router_def yx_request_def example_defs nav_defs str_defs obj_defs
        action_defs new_events_def current_route_object_def deep_equal_def Let_def)

subsection \<open>Push or replace\<close>




subsection \<open>A before-each hook that refuses\<close>




subsection \<open>The route object after it was handed to the hooks\<close>

text \<open>
  C8, as amended. The route object handed to the before-each hook is the object that
  \<open>_match\<close> created in this call, at the one new reference of the store, after the
  two merges have written the params, the query and the hash of the request into it:
  the merges come before the hand-off and create no other object. That object is
  what the hook and the listeners of the before-each signal are called with, and
  their answer decides the navigation. After the hand-off the router changes nothing
  in the store except, once the history has accepted the commit and the route has a
  component, the \<open>instance\<close> property of that object, which it sets in place; the
  name, path, params, query and hash of every route object stay as they were at the
  hand-off, and the after-each hook is called with the same object in its final state.
\<close>

theorem C8_route_object_after_handoff:
  assumes "pending_of (Router_navigate_sync r arg) = Some p"
  shows "p_newRoute p = length (heap r)
       \<and> (\<exists>ob. matched_route (Router_match r (Val (p_path p))) = Some ob
              \<and> heap (state_of (Router_navigate_sync r arg)) = heap r @ [merged_route arg ob])
       \<and> before_hook_events (state_of (Router_navigate_sync r arg))
           = before_hook_events r
             @ (if beforeEach r = NotAFunction then []
                else [BeforeEachCall (lastRoute r) (p_newRoute p)
                        (heap (state_of (Router_navigate_sync r arg)) ! p_newRoute p),
                      BeforeEachDispatch (lastRoute r) (p_newRoute p)
                        (heap (state_of (Router_navigate_sync r arg)) ! p_newRoute p)])
       \<and> p_resolved p
           = (case beforeEach r of
                NotAFunction \<Rightarrow> Some (JBool True)
              | DefaultHook \<Rightarrow> Some JUndefined
              | UserHook h \<Rightarrow>
                  first_answer
                    (h (map_option (\<lambda>l. heap (state_of (Router_navigate_sync r arg)) ! l)
                          (lastRoute r))
                       (Some (heap (state_of (Router_navigate_sync r arg)) ! p_newRoute p))
                     # map (\<lambda>g. g (map_option
                                     (\<lambda>l. heap (state_of (Router_navigate_sync r arg)) ! l)
                                     (lastRoute r))
                                  (Some (heap (state_of (Router_navigate_sync r arg))
                                           ! p_newRoute p)))
                         (beforeEachChanged r)))
       \<and> heap (state_of (Router_navigate r arg))
           = (if past_commit (returned (Router_navigate r arg))
              then attach_instance (heap (state_of (Router_navigate_sync r arg)))
                     (p_newRoute p) (p_component p)
              else heap (state_of (Router_navigate_sync r arg)))
       \<and> map route_fields (heap (state_of (Router_navigate r arg)))
           = map route_fields (heap (state_of (Router_navigate_sync r arg)))
       \<and> after_hook_events (state_of (Router_navigate r arg))
           = after_hook_events r
             @ (if past_commit (returned (Router_navigate r arg)) \<and> afterEach r \<noteq> NotAFunction
                then [AfterEachCall (lastRoute r) (Some (p_newRoute p))
                        (Some (heap (state_of (Router_navigate r arg)) ! p_newRoute p)),
                      AfterEachDispatch (lastRoute r) (Some (p_newRoute p))
                        (Some (heap (state_of (Router_navigate r arg)) ! p_newRoute p))]
                else [])"
proof -
  from assms obtain r1 where sync: "Router_navigate_sync r arg = Return (Inr p) r1"
    by (cases "Router_navigate_sync r arg" rule: pending_of.cases) auto
  note nav = navigate_after_pending [OF sync]
  note oe = sync_pending(4) [OF sync]
  from sync_pending(1) [OF sync] obtain h where h: "history r1 = Some h" by blast
  from sync_after_hook_events [of r arg] sync
  have ah1: "after_hook_events r1 = after_hook_events r" by simp
  note f1 = only_events_fields(2,10) [OF oe]
  have upd: "(map route_fields hp)[a := route_fields (hp ! a)] = map route_fields hp" for hp a
    by (cases "a < length hp") (simp_all add: list_update_same_conv list_update_beyond)
  have "route_fields (ob\<lparr>inst := i\<rparr>) = route_fields ob" for ob i
    by (simp add: route_fields_def)
  with upd have fields:
    "map route_fields (attach_instance hp a cpt) = map route_fields hp" for hp a cpt
    by (simp add: attach_instance_def map_update split: option.splits component.splits)
  have after: "heap (state_of (Router_navigate r arg))
           = (if past_commit (returned (Router_navigate r arg))
              then attach_instance (heap r1) (p_newRoute p) (p_component p)
              else heap r1)
       \<and> after_hook_events (state_of (Router_navigate r arg))
           = after_hook_events r
             @ (if past_commit (returned (Router_navigate r arg)) \<and> afterEach r \<noteq> NotAFunction
                then [AfterEachCall (lastRoute r) (Some (p_newRoute p))
                        (Some (heap (state_of (Router_navigate r arg)) ! p_newRoute p)),
                      AfterEachDispatch (lastRoute r) (Some (p_newRoute p))
                        (Some (heap (state_of (Router_navigate r arg)) ! p_newRoute p))]
                else [])"
  proof (cases "proceeds (p_resolved p)")
    case False
    from before_then_stops [OF False, of r1] obtain res where
      f: "fst (Router_before_then r1 p) = Inl res"
      and res: "res = BeforeStalled \<or> res = BeforeCancelled"
      and oc: "only_events is_console r1 (snd (Router_before_then r1 p))"
      by blast
    from False have "heap (snd (Router_before_then r1 p)) = heap r1"
      by (auto simp add: Router_before_then_def proceeds_def emit_def split: option.splits)
    moreover have "filter is_after_hook_event (events (snd (Router_before_then r1 p)))
                     = filter is_after_hook_event (events r1)"
      using oc not_after_hook_console by (rule only_events_filter)
    ultimately show ?thesis using f res nav ah1
      by (cases "Router_before_then r1 p") (auto simp add: after_hook_events_def)
  next
    case True
    show ?thesis
    proof (cases "history_accepts h (commit_location p)")
      case (Inl e)
      from before_then_refused [OF h True Inl] nav
      have "Router_navigate r arg =
              Return (BeforeRejected e)
                (emit (ConsoleLog ''Router.hooks'')
                  (emit (if p_silent p then HistoryReplace (commit_location p)
                         else HistoryPush (commit_location p))
                     (r1\<lparr>currentRoute := Some (p_newRoute p),
                         action := (if p_silent p then REPLACE_ACTION else PUSH_ACTION)\<rparr>)))"
        by simp
      with ah1 show ?thesis
        by (simp add: emit_def after_hook_events_def)
    next
      case (Inr loc)
      from before_then_proceeds [OF h True Inr] obtain ap r4 where
        b: "Router_before_then r1 p = (Inr ap, r4)"
        and h4: "heap r4 = attach_instance (heap r1) (p_newRoute p) (p_component p)"
        and a4: "after_hook_events r4
               = after_hook_events r1
                 @ (if afterEach r1 = NotAFunction then []
                    else [AfterEachCall (lastRoute r1) (Some (p_newRoute p))
                            (Some (heap r4 ! p_newRoute p)),
                          AfterEachDispatch (lastRoute r1) (Some (p_newRoute p))
                            (Some (heap r4 ! p_newRoute p))])"
        by blast
      obtain res r5 where a: "Router_after_then r4 ap = (res, r5)"
        by (cases "Router_after_then r4 ap")
      with after_then_state(1,4,5) [of r4 ap]
      have "heap r5 = heap r4" "after_hook_events r5 = after_hook_events r4"
        "past_commit (Some res)" by simp_all
      with nav b a h4 a4 ah1 f1 show ?thesis by simp
    qed
  qed
  from sync have s1: "state_of (Router_navigate_sync r arg) = r1" by simp
  from after sync_pending(2,5,6,7) [OF sync] fields show ?thesis
    unfolding s1 by simp
qed

theorem C8_route_object_after_handoff_witness:
  "pending_of (Router_navigate_sync observing_router about_request)
     = Some \<lparr>p_newRoute = 0, p_path = ''/about'', p_query = Some ''?a=1'', p_hash = None,
             p_silent = False, p_callback = None, p_component = Some (CFunction 7),
             p_localePrefix = [], p_resolved = Some (JStr ''?a=1'')\<rparr>
   \<and> heap observing_router = []
   \<and> matched_route (Router_match observing_router (Val ''/about''))
       = Some \<lparr>name = ''about'', path = ''/about'', params = [], query = None,
               hash = None, inst = None\<rparr>
   \<and> heap (state_of (Router_navigate_sync observing_router about_request))
       = [\<lparr>name = ''about'', path = ''/about'', params = [], query = Some ''?a=1'',
           hash = None, inst = None\<rparr>]
   \<and> before_hook_events (state_of (Router_navigate_sync observing_router about_request))
       = [BeforeEachCall None 0
            \<lparr>name = ''about'', path = ''/about'', params = [], query = Some ''?a=1'',
             hash = None, inst = None\<rparr>,
          BeforeEachDispatch None 0
            \<lparr>name = ''about'', path = ''/about'', params = [], query = Some ''?a=1'',
             hash = None, inst = None\<rparr>]
   \<and> past_commit (returned (Router_navigate observing_router about_request))
   \<and> heap (state_of (Router_navigate observing_router about_request))
       = [\<lparr>name = ''about'', path = ''/about'', params = [], query = Some ''?a=1'',
           hash = None, inst = Some 7\<rparr>]
   \<and> map route_fields (heap (state_of (Router_navigate observing_router about_request)))
       = [(''about'', ''/about'', [], Some ''?a=1'', None)]
   \<and> after_hook_events (state_of (Router_navigate observing_router about_request))
       = [AfterEachCall None (Some 0)
            (Some \<lparr>name = ''about'', path = ''/about'', params = [], query = Some ''?a=1'',
                   hash = None, inst = Some 7\<rparr>),
          AfterEachDispatch None (Some 0)
            (Some \<lparr>name = ''about'', path = ''/about'', params = [], query = Some ''?a=1'',
                   hash = None, inst = Some 7\<rparr>)]"
  using C8_route_object_after_handoff [of observing_router about_request
      "\<lparr>p_newRoute = 0, p_path = ''/about'', p_query = Some ''?a=1'', p_hash = None,
             p_silent = False, p_callback = None, p_component = Some (CFunction 7),
             p_localePrefix = [], p_resolved = Some (JStr ''?a=1'')\<rparr>"]
  by (simp add: observing_router_def query_hook_def about_request_def example_defs nav_defs
        str_defs obj_defs action_defs attach_instance_def route_fields_def merged_route_def
        before_hook_events_def after_hook_events_def Let_def)

text \<open>
  C8 as the specification states it fails on the code in both parts. The object at
  reference 0 is created by \<open>_match\<close> with query \<open>null\<close>; the merge of the
  request's query writes \<open>?a=1\<close> into that same object (the store holds one object
  when the hook is called with reference 0, and the hook sees the query); and after
  the hook has been handed the object, the router sets its \<open>instance\<close> in place.
\<close>

theorem C8_in_place_counterexample:
  "matched_route (Router_match example_router (Val ''/about''))
     = Some \<lparr>name = ''about'', path = ''/about'', params = [], query = None,
             hash = None, inst = None\<rparr>
   \<and> map_option p_newRoute (pending_of (Router_navigate_sync example_router about_request))
       = Some 0
   \<and> new_events example_router (state_of (Router_navigate_sync example_router about_request))
       = [BeforeEachCall None 0
            \<lparr>name = ''about'', path = ''/about'', params = [], query = Some ''?a=1'',
             hash = None, inst = None\<rparr>,
          BeforeEachDispatch None 0
            \<lparr>name = ''about'', path = ''/about'', params = [], query = Some ''?a=1'',
             hash = None, inst = None\<rparr>]
   \<and> heap (state_of (Router_navigate_sync example_router about_request))
       = [\<lparr>name = ''about'', path = ''/about'', params = [], query = Some ''?a=1'',
           hash = None, inst = None\<rparr>]
   \<and> heap (state_of (Router_navigate example_router about_request))
       = [\<lparr>name = ''about'', path = ''/about'', params = [], query = Some ''?a=1'',
           hash = None, inst = Some 7\<rparr>]"
  by (simp add: about_request_def example_defs nav_defs str_defs obj_defs action_defs
        new_events_def Let_def)

end
